theory Spec2Isabelle
  imports Complex_Main "HOL-Library.Log_Nat"
begin

section \<open>Errors\<close>

text \<open>
  The Python exceptions that the modelled functions of \<^verbatim>\<open>meshroom/core/desc.py\<close> raise or
  let through. A function that may raise returns \<open>error + 'a\<close>, with \<open>Inl\<close> for the exception.
\<close>

datatype error =
    ValueError
  | TypeError
  | AttributeError
  | SyntaxError
  | KeyError
  | IndexError
  | NotImplementedError
  | NoSuchProcess
  | OSError
  | OverflowError
  | ZeroDivisionError
  | UnicodeDecodeError
  | RuntimeError string
  | OtherError string

section \<open>Sizing model: \<open>Range\<close> and \<open>Parallelization\<close>\<close>

text \<open>
  \<^verbatim>\<open>class Range\<close>: three fields (Python integers) and four derived properties.
  \<open>end\<close> and \<open>last\<close> are named \<open>rangeEnd\<close> and \<open>rangeLast\<close> here, as the keys of
  \<^verbatim>\<open>Range.toDict\<close> name them.
\<close>

record Range =
  iteration :: int
  blockSize :: int
  fullSize :: int

definition start :: "Range \<Rightarrow> int" where
  "start r = iteration r * blockSize r"

definition effectiveBlockSize :: "Range \<Rightarrow> int" where
  "effectiveBlockSize r =
     (let remaining = (fullSize r - start r) + 1
      in if remaining \<ge> blockSize r then blockSize r else remaining)"

definition rangeEnd :: "Range \<Rightarrow> int" where
  "rangeEnd r = start r + effectiveBlockSize r"

definition rangeLast :: "Range \<Rightarrow> int" where
  "rangeLast r = rangeEnd r - 1"

text \<open>
  \<^verbatim>\<open>class Parallelization\<close>. Its \<^verbatim>\<open>blockSize\<close> field is named \<open>parBlockSize\<close>, since
  \<open>blockSize\<close> is the field of \<open>Range\<close>.
\<close>

record Parallelization =
  staticNbBlocks :: int
  parBlockSize :: int

text \<open>
  \<^verbatim>\<open>int(math.ceil(float(size) / float(self.blockSize)))\<close> is computed in IEEE 754 double
  precision. A finite double is represented by the number it denotes.

  \<open>roundHalfEven n d\<close> is the quotient \<open>n / d\<close> of a non-negative \<open>n\<close> by a positive \<open>d\<close>,
  rounded to the nearest integer, a tie to the even one.

  \<open>float_of_int n\<close> is \<^verbatim>\<open>float(n)\<close> for a Python integer: the integer is rounded to 53
  significant bits, and \<^verbatim>\<open>OverflowError\<close> is raised when the result is not below \<open>2^1024\<close>.
  The double it returns denotes an integer.

  \<open>float_div x y\<close> is the quotient \<^verbatim>\<open>x / y\<close> of two doubles that denote the integers \<open>x\<close>
  and \<open>y \<noteq> 0\<close>: with \<open>f\<close> the binary exponent of the exact quotient, the quotient is rounded
  to a multiple of \<open>2^e\<close>, where \<open>e = f - 52\<close>, or \<open>e = - 1074\<close> for a subnormal result. Such a
  quotient neither overflows nor rounds to zero.
\<close>

definition roundHalfEven :: "int \<Rightarrow> int \<Rightarrow> int" where
  "roundHalfEven n d =
     (let q = n div d; r = n mod d
      in if 2 * r > d \<or> (2 * r = d \<and> odd q) then q + 1 else q)"

definition float_of_int :: "int \<Rightarrow> error + int" where
  "float_of_int n =
     (let a = \<bar>n\<bar>;
          shift = nat (bitlen a - 53);
          v = roundHalfEven a (2 ^ shift) * 2 ^ shift
      in if v \<ge> 2 ^ 1024 then Inl OverflowError else Inr (sgn n * v))"

definition float_div :: "int \<Rightarrow> int \<Rightarrow> real" where
  "float_div x y =
     (if x = 0 then 0
      else
        let a = \<bar>x\<bar>; b = \<bar>y\<bar>;
            d = bitlen a - bitlen b;
            f = (if b * 2 ^ nat d \<le> a * 2 ^ nat (- d) then d else d - 1);
            e = max (f - 52) (- 1074);
            m = roundHalfEven (a * 2 ^ nat (- e)) (b * 2 ^ nat e)
        in real_of_int (sgn x * sgn y * m * 2 ^ nat e) / real_of_int (2 ^ nat (- e)))"

text \<open>
  \<open>nbBlocksOf size blockSize\<close>: \<^verbatim>\<open>float(size)\<close>, then \<^verbatim>\<open>float(self.blockSize)\<close>, the
  division (\<^verbatim>\<open>ZeroDivisionError\<close> for a zero divisor), \<^verbatim>\<open>math.ceil\<close>, which returns the
  exact integer, and \<^verbatim>\<open>int\<close>.
\<close>

definition nbBlocksOf :: "int \<Rightarrow> int \<Rightarrow> error + int" where
  "nbBlocksOf sz b =
     (case float_of_int sz of
        Inl e \<Rightarrow> Inl e
      | Inr x \<Rightarrow>
          (case float_of_int b of
             Inl e \<Rightarrow> Inl e
           | Inr y \<Rightarrow> if y = 0 then Inl ZeroDivisionError else Inr \<lceil>float_div x y\<rceil>))"

text \<open>
  \<^verbatim>\<open>getSizes\<close> reads \<^verbatim>\<open>node.size\<close> only; the node is represented by that size.
  The result \<open>Inr None\<close> is Python's \<^verbatim>\<open>None\<close>.
\<close>

definition getSizes :: "Parallelization \<Rightarrow> int \<Rightarrow> error + (int \<times> int \<times> int) option" where
  "getSizes p sz =
     (if parBlockSize p \<noteq> 0 then
        (case nbBlocksOf sz (parBlockSize p) of
           Inl e \<Rightarrow> Inl e
         | Inr nbBlocks \<Rightarrow> Inr (Some (parBlockSize p, sz, nbBlocks)))
      else if staticNbBlocks p \<noteq> 0 then
        Inr (Some (1, staticNbBlocks p, staticNbBlocks p))
      else Inr None)"

text \<open>
  \<^verbatim>\<open>blockSize, fullSize, nbBlocks = self.getSizes(node)\<close> raises \<^verbatim>\<open>TypeError\<close> when
  \<^verbatim>\<open>getSizes\<close> returned \<^verbatim>\<open>None\<close>.
\<close>

definition getRange :: "Parallelization \<Rightarrow> int \<Rightarrow> int \<Rightarrow> error + Range" where
  "getRange p sz i =
     (case getSizes p sz of
        Inl e \<Rightarrow> Inl e
      | Inr None \<Rightarrow> Inl TypeError
      | Inr (Some (b, f, n)) \<Rightarrow> Inr \<lparr>iteration = i, blockSize = b, fullSize = f\<rparr>)"

text \<open>The loop \<^verbatim>\<open>for i in range(nbBlocks)\<close> appends one range per index, in order.\<close>

definition getRanges :: "Parallelization \<Rightarrow> int \<Rightarrow> error + Range list" where
  "getRanges p sz =
     (case getSizes p sz of
        Inl e \<Rightarrow> Inl e
      | Inr None \<Rightarrow> Inl TypeError
      | Inr (Some (b, f, n)) \<Rightarrow>
          Inr (map (\<lambda>i. \<lparr>iteration = int i, blockSize = b, fullSize = f\<rparr>) [0..<nat n]))"

text \<open>
  The number of blocks that the description states, \<open>ceil(size / blockSize)\<close>, to compare
  the code with.
\<close>

definition spec_nbBlocks :: "int \<Rightarrow> int \<Rightarrow> int" where
  "spec_nbBlocks sz b = \<lceil>real_of_int sz / real_of_int b\<rceil>"

text \<open>The indices \<open>[start, end)\<close> that a range covers.\<close>

definition covered :: "Range \<Rightarrow> int set" where
  "covered r = {start r ..< rangeEnd r}"

section \<open>Python values\<close>

text \<open>
  The values that reach the attribute descriptors: defaults given in a node definition and
  raw values handed to \<^verbatim>\<open>validateValue\<close> and \<^verbatim>\<open>matchDescription\<close>. A dictionary is the list
  of its items in iteration order. \<open>VFunc\<close> is a callable (some \<^verbatim>\<open>File\<close> defaults are
  functions), \<open>VJSValue\<close> a \<^verbatim>\<open>QJSValue\<close>. A float is represented by the real number it
  denotes.
\<close>

datatype pyval =
    VNone
  | VBool bool
  | VInt int
  | VFloat real
  | VStr string
  | VList "pyval list"
  | VTuple "pyval list"
  | VDict "(pyval \<times> pyval) list"
  | VFunc
  | VJSValue

text \<open>The \<^verbatim>\<open>isinstance\<close> tests of the source. \<^verbatim>\<open>bool\<close> is a subclass of \<^verbatim>\<open>int\<close>.\<close>

fun isStr :: "pyval \<Rightarrow> bool" where
  "isStr (VStr s) = True"
| "isStr v = False"

fun isBool :: "pyval \<Rightarrow> bool" where
  "isBool (VBool b) = True"
| "isBool v = False"

fun isInt :: "pyval \<Rightarrow> bool" where
  "isInt (VInt i) = True"
| "isInt (VBool b) = True"
| "isInt v = False"

fun isFloat :: "pyval \<Rightarrow> bool" where
  "isFloat (VFloat r) = True"
| "isFloat v = False"

fun isListOrTuple :: "pyval \<Rightarrow> bool" where
  "isListOrTuple (VList xs) = True"
| "isListOrTuple (VTuple xs) = True"
| "isListOrTuple v = False"

fun callable :: "pyval \<Rightarrow> bool" where
  "callable VFunc = True"
| "callable v = False"

text \<open>\<^verbatim>\<open>bool(value)\<close>: the truth value of a Python value.\<close>

fun py_bool :: "pyval \<Rightarrow> bool" where
  "py_bool VNone = False"
| "py_bool (VBool b) = b"
| "py_bool (VInt i) = (i \<noteq> 0)"
| "py_bool (VFloat r) = (r \<noteq> 0)"
| "py_bool (VStr s) = (s \<noteq> [])"
| "py_bool (VList xs) = (xs \<noteq> [])"
| "py_bool (VTuple xs) = (xs \<noteq> [])"
| "py_bool (VDict kvs) = (kvs \<noteq> [])"
| "py_bool VFunc = True"
| "py_bool VJSValue = True"

text \<open>
  \<^verbatim>\<open>value[0]\<close>. A dictionary is looked up at the key \<^verbatim>\<open>0\<close> (which \<^verbatim>\<open>False\<close> and \<^verbatim>\<open>0.0\<close>
  equal too).
\<close>

fun isZeroKey :: "pyval \<Rightarrow> bool" where
  "isZeroKey (VInt i) = (i = 0)"
| "isZeroKey (VBool b) = (\<not> b)"
| "isZeroKey (VFloat r) = (r = 0)"
| "isZeroKey v = False"

fun getitem0 :: "pyval \<Rightarrow> error + pyval" where
  "getitem0 (VList xs) = (case xs of [] \<Rightarrow> Inl IndexError | x # _ \<Rightarrow> Inr x)"
| "getitem0 (VTuple xs) = (case xs of [] \<Rightarrow> Inl IndexError | x # _ \<Rightarrow> Inr x)"
| "getitem0 (VStr s) = (case s of [] \<Rightarrow> Inl IndexError | c # _ \<Rightarrow> Inr (VStr [c]))"
| "getitem0 (VDict kvs) =
     (case filter (\<lambda>kv. isZeroKey (fst kv)) kvs of [] \<Rightarrow> Inl KeyError | kv # _ \<Rightarrow> Inr (snd kv))"
| "getitem0 v = Inl TypeError"

text \<open>
  \<^verbatim>\<open>str.lower\<close> on the ASCII letters, \<^verbatim>\<open>str.split(sep)\<close> for a one-character separator,
  and \<^verbatim>\<open>sep.join(xs)\<close>.
\<close>

definition lower_char :: "char \<Rightarrow> char" where
  "lower_char c =
     (case map_of (zip ''ABCDEFGHIJKLMNOPQRSTUVWXYZ'' ''abcdefghijklmnopqrstuvwxyz'') c of
        None \<Rightarrow> c
      | Some l \<Rightarrow> l)"

definition lower :: "string \<Rightarrow> string" where
  "lower s = map lower_char s"

fun split :: "char \<Rightarrow> string \<Rightarrow> string list" where
  "split sep [] = [[]]"
| "split sep (c # cs) =
     (if c = sep then [] # split sep cs
      else (case split sep cs of [] \<Rightarrow> [[c]] | w # ws \<Rightarrow> (c # w) # ws))"

fun join :: "string \<Rightarrow> string list \<Rightarrow> string" where
  "join sep [] = []"
| "join sep [x] = x"
| "join sep (x # y # ys) = x @ sep @ join sep (y # ys)"

text \<open>
  \<^verbatim>\<open>distutils.util.strtobool\<close> of the standard library: the lower-cased string is looked up
  among the true and the false tokens.
\<close>

definition strtobool :: "string \<Rightarrow> error + int" where
  "strtobool val =
     (let val = lower val in
      if val \<in> set [''y'', ''yes'', ''t'', ''true'', ''on'', ''1''] then Inr 1
      else if val \<in> set [''n'', ''no'', ''f'', ''false'', ''off'', ''0''] then Inr 0
      else Inl ValueError)"

text \<open>
  The functions of Python and of its standard library that the descriptors call and that
  are not modelled here are parameters: \<^verbatim>\<open>int(v)\<close>, \<^verbatim>\<open>float(v)\<close>, \<^verbatim>\<open>type(proto)(v)\<close>
  (the constructor of the type of \<open>proto\<close> applied to \<open>v\<close>), \<^verbatim>\<open>a == b\<close>,
  \<^verbatim>\<open>ast.literal_eval(s)\<close> and \<^verbatim>\<open>os.path.normpath(s)\<close>.
\<close>

record pylib =
  py_int :: "pyval \<Rightarrow> error + int"
  py_float :: "pyval \<Rightarrow> error + real"
  construct :: "pyval \<Rightarrow> pyval \<Rightarrow> error + pyval"
  py_eq :: "pyval \<Rightarrow> pyval \<Rightarrow> bool"
  literal_eval :: "string \<Rightarrow> error + pyval"
  normpath :: "string \<Rightarrow> string"

section \<open>Attribute descriptors\<close>

text \<open>
  One constructor per concrete class of \<^verbatim>\<open>desc.py\<close>, with the constructor arguments that
  \<^verbatim>\<open>validateValue\<close>, \<^verbatim>\<open>checkValueTypes\<close> and \<^verbatim>\<open>matchDescription\<close> read, in the order of the
  source: \<open>name\<close> and the default \<open>value\<close> everywhere, \<open>elementDesc\<close> for a list, \<open>groupDesc\<close>
  for a group, \<open>range\<close> (the elements of the range tuple; empty when there is none) for
  \<open>IntParam\<close> and \<open>FloatParam\<close>, \<open>values\<close> and \<open>exclusive\<close> for \<open>ChoiceParam\<close>.
  \<^verbatim>\<open>ChoiceParam.__init__\<close> asserts that \<open>values\<close> is not empty: the constructor takes its
  first element and the rest. The default of a list is \<^verbatim>\<open>[]\<close>, of a group \<^verbatim>\<open>{}\<close>.
\<close>

datatype desc =
    ListAttribute desc string
  | GroupAttribute "desc list" string
  | File string pyval
  | BoolParam string pyval
  | IntParam string pyval "pyval list"
  | FloatParam string pyval "pyval list"
  | ChoiceParam string pyval pyval "pyval list" bool
  | StringParam string pyval
  | ColorParam string pyval

fun name :: "desc \<Rightarrow> string" where
  "name (ListAttribute e n) = n"
| "name (GroupAttribute ds n) = n"
| "name (File n v) = n"
| "name (BoolParam n v) = n"
| "name (IntParam n v r) = n"
| "name (FloatParam n v r) = n"
| "name (ChoiceParam n v v0 vs ex) = n"
| "name (StringParam n v) = n"
| "name (ColorParam n v) = n"

subsection \<open>\<open>validateValue\<close>\<close>

text \<open>
  \<^verbatim>\<open>ListAttribute.validateValue\<close>: a \<^verbatim>\<open>QJSValue\<close> is refused, a string is parsed by
  \<^verbatim>\<open>ast.literal_eval\<close> (whose exception is not caught), anything but a list or a tuple is
  refused.
\<close>

definition ListAttribute_validateValue :: "pylib \<Rightarrow> pyval \<Rightarrow> error + pyval" where
  "ListAttribute_validateValue lib v0 =
     (if v0 = VJSValue then Inl ValueError
      else case (case v0 of VStr s \<Rightarrow> literal_eval lib s | _ \<Rightarrow> Inr v0) of
        Inl e \<Rightarrow> Inl e
      | Inr v \<Rightarrow> if \<not> isListOrTuple v then Inl ValueError else Inr v)"

text \<open>
  \<^verbatim>\<open>GroupAttribute.validateValue\<close>. \<open>commonKeys\<close> is
  \<^verbatim>\<open>set(value.keys()).intersection([attr.name for attr in self._groupDesc])\<close>: a key is
  common when it is the string of a child's name.
\<close>

definition commonKeys :: "(pyval \<times> pyval) list \<Rightarrow> string list \<Rightarrow> pyval list" where
  "commonKeys kvs names = filter (\<lambda>k. k \<in> set (map VStr names)) (map fst kvs)"

definition GroupAttribute_validateValue :: "pylib \<Rightarrow> desc list \<Rightarrow> pyval \<Rightarrow> error + pyval" where
  "GroupAttribute_validateValue lib groupDesc v0 =
     (if v0 = VJSValue then Inl ValueError
      else case (case v0 of VStr s \<Rightarrow> literal_eval lib s | _ \<Rightarrow> Inr v0) of
        Inl e \<Rightarrow> Inl e
      | Inr v \<Rightarrow>
          (case v of
             VDict kvs \<Rightarrow>
               if groupDesc \<noteq> [] \<and> commonKeys kvs (map name groupDesc) = [] then Inl ValueError
               else Inr v
           | VList xs \<Rightarrow> if length xs \<noteq> length groupDesc then Inl ValueError else Inr v
           | VTuple xs \<Rightarrow> if length xs \<noteq> length groupDesc then Inl ValueError else Inr v
           | _ \<Rightarrow> Inl ValueError))"

text \<open>\<^verbatim>\<open>File.validateValue\<close>: \<^verbatim>\<open>os.path.normpath(value).replace('\\', '/') if value else ''\<close>.\<close>

definition File_validateValue :: "pylib \<Rightarrow> pyval \<Rightarrow> error + pyval" where
  "File_validateValue lib v =
     (case v of
        VStr s \<Rightarrow>
          Inr (VStr (if s \<noteq> [] then map (\<lambda>c. if c = CHR 0x5C then CHR ''/'' else c) (normpath lib s)
                     else []))
      | _ \<Rightarrow> Inl ValueError)"

text \<open>
  \<^verbatim>\<open>BoolParam.validateValue\<close>: a string goes through \<^verbatim>\<open>strtobool\<close>, any other value through
  \<^verbatim>\<open>bool\<close>; the bare \<^verbatim>\<open>except\<close> turns every exception into \<^verbatim>\<open>ValueError\<close>.
\<close>

definition BoolParam_validateValue :: "pyval \<Rightarrow> error + pyval" where
  "BoolParam_validateValue v =
     (case v of
        VStr s \<Rightarrow> (case strtobool s of Inl e \<Rightarrow> Inl ValueError | Inr i \<Rightarrow> Inr (VBool (i \<noteq> 0)))
      | _ \<Rightarrow> Inr (VBool (py_bool v)))"

definition IntParam_validateValue :: "pylib \<Rightarrow> pyval \<Rightarrow> error + pyval" where
  "IntParam_validateValue lib v =
     (case py_int lib v of Inl e \<Rightarrow> Inl ValueError | Inr i \<Rightarrow> Inr (VInt i))"

definition FloatParam_validateValue :: "pylib \<Rightarrow> pyval \<Rightarrow> error + pyval" where
  "FloatParam_validateValue lib v =
     (case py_float lib v of Inl e \<Rightarrow> Inl ValueError | Inr r \<Rightarrow> Inr (VFloat r))"

text \<open>
  \<^verbatim>\<open>ChoiceParam.conformValue\<close>: the value is converted to the type of the first allowed
  value (an exception of the conversion is not caught) and looked up among the allowed
  values.
\<close>

definition conformValue :: "pylib \<Rightarrow> pyval \<Rightarrow> pyval list \<Rightarrow> pyval \<Rightarrow> error + pyval" where
  "conformValue lib v0 vs v =
     (case construct lib v0 v of
        Inl e \<Rightarrow> Inl e
      | Inr val \<Rightarrow> if \<not> list_ex (\<lambda>x. py_eq lib x val) (v0 # vs) then Inl ValueError else Inr val)"

text \<open>The list comprehension \<^verbatim>\<open>[self.conformValue(v) for v in value]\<close>: the first exception ends it.\<close>

fun conformAll :: "pylib \<Rightarrow> pyval \<Rightarrow> pyval list \<Rightarrow> pyval list \<Rightarrow> error + pyval list" where
  "conformAll lib v0 vs [] = Inr []"
| "conformAll lib v0 vs (x # xs) =
     (case conformValue lib v0 vs x of
        Inl e \<Rightarrow> Inl e
      | Inr y \<Rightarrow> (case conformAll lib v0 vs xs of Inl e \<Rightarrow> Inl e | Inr ys \<Rightarrow> Inr (y # ys)))"

text \<open>
  The elements that iterating a value yields, \<open>None\<close> when the value is not an
  \<^verbatim>\<open>Iterable\<close>.
\<close>

fun iterate :: "pyval \<Rightarrow> pyval list option" where
  "iterate (VList xs) = Some xs"
| "iterate (VTuple xs) = Some xs"
| "iterate (VDict kvs) = Some (map fst kvs)"
| "iterate (VStr s) = Some (map (\<lambda>c. VStr [c]) s)"
| "iterate v = None"

definition ChoiceParam_validateValue ::
    "pylib \<Rightarrow> pyval \<Rightarrow> pyval list \<Rightarrow> bool \<Rightarrow> pyval \<Rightarrow> error + pyval" where
  "ChoiceParam_validateValue lib v0 vs exclusive val0 =
     (if exclusive then conformValue lib v0 vs val0
      else
        let val = (case val0 of VStr s \<Rightarrow> VList (map VStr (split CHR '','' s)) | _ \<Rightarrow> val0) in
        case iterate val of
          None \<Rightarrow> Inl ValueError
        | Some xs \<Rightarrow> (case conformAll lib v0 vs xs of Inl e \<Rightarrow> Inl e | Inr ys \<Rightarrow> Inr (VList ys)))"

definition StringParam_validateValue :: "pyval \<Rightarrow> error + pyval" where
  "StringParam_validateValue v = (if \<not> isStr v then Inl ValueError else Inr v)"

text \<open>\<^verbatim>\<open>ColorParam.validateValue\<close>: a string that \<^verbatim>\<open>split(" ")\<close> cuts into one piece.\<close>

definition ColorParam_validateValue :: "pyval \<Rightarrow> error + pyval" where
  "ColorParam_validateValue v =
     (case v of
        VStr s \<Rightarrow> if length (split CHR '' '' s) > 1 then Inl ValueError else Inr v
      | _ \<Rightarrow> Inl ValueError)"

text \<open>The method that a descriptor's class gives it.\<close>

fun validateValue :: "pylib \<Rightarrow> desc \<Rightarrow> pyval \<Rightarrow> error + pyval" where
  "validateValue lib (ListAttribute e n) v = ListAttribute_validateValue lib v"
| "validateValue lib (GroupAttribute ds n) v = GroupAttribute_validateValue lib ds v"
| "validateValue lib (File n d) v = File_validateValue lib v"
| "validateValue lib (BoolParam n d) v = BoolParam_validateValue v"
| "validateValue lib (IntParam n d r) v = IntParam_validateValue lib v"
| "validateValue lib (FloatParam n d r) v = FloatParam_validateValue lib v"
| "validateValue lib (ChoiceParam n d v0 vs ex) v = ChoiceParam_validateValue lib v0 vs ex v"
| "validateValue lib (StringParam n d) v = StringParam_validateValue v"
| "validateValue lib (ColorParam n d) v = ColorParam_validateValue v"

subsection \<open>\<open>matchDescription\<close>\<close>

text \<open>
  \<^verbatim>\<open>Attribute.matchDescription\<close>: \<^verbatim>\<open>validateValue\<close> is called under
  \<^verbatim>\<open>except ValueError\<close>; any other exception passes through.
\<close>

definition Attribute_matchDescription :: "pylib \<Rightarrow> desc \<Rightarrow> pyval \<Rightarrow> error + bool" where
  "Attribute_matchDescription lib d v =
     (case validateValue lib d v of
        Inl ValueError \<Rightarrow> Inr False
      | Inl e \<Rightarrow> Inl e
      | Inr x \<Rightarrow> Inr True)"

text \<open>
  \<^verbatim>\<open>ListAttribute.matchDescription\<close> tests the first element of the value it was given
  (not of the validated one). \<^verbatim>\<open>GroupAttribute.matchDescription\<close> calls
  \<^verbatim>\<open>value.items()\<close> on the value it was given, which only a dictionary has, and counts
  the items whose key is in \<open>attrMap\<close> and whose value matches the child of that name.
  \<open>attrMap\<close> is \<^verbatim>\<open>{attr.name: attr for attr in self._groupDesc}\<close>: of two children with one
  name the later one is kept, so \<open>matchKey\<close> gives way to a later child of the same name.
  \<open>matchItems\<close> is the loop over the items and returns \<open>matchCount\<close>.
\<close>

fun matchDescription :: "pylib \<Rightarrow> desc \<Rightarrow> pyval \<Rightarrow> bool \<Rightarrow> error + bool"
  and matchItems :: "pylib \<Rightarrow> desc list \<Rightarrow> (pyval \<times> pyval) list \<Rightarrow> bool \<Rightarrow> error + nat"
  and matchKey :: "pylib \<Rightarrow> desc list \<Rightarrow> pyval \<Rightarrow> pyval \<Rightarrow> bool \<Rightarrow> error + bool"
where
  "matchDescription lib (ListAttribute e n) v strict =
     (case Attribute_matchDescription lib (ListAttribute e n) v of
        Inl err \<Rightarrow> Inl err
      | Inr False \<Rightarrow> Inr False
      | Inr True \<Rightarrow>
          if py_bool v then
            (case getitem0 v of Inl err \<Rightarrow> Inl err | Inr x \<Rightarrow> matchDescription lib e x strict)
          else Inr True)"
| "matchDescription lib (GroupAttribute ds n) v strict =
     (case Attribute_matchDescription lib (GroupAttribute ds n) v of
        Inl err \<Rightarrow> Inl err
      | Inr False \<Rightarrow> Inr False
      | Inr True \<Rightarrow>
          (case v of
             VDict kvs \<Rightarrow>
               (case matchItems lib ds kvs strict of
                  Inl err \<Rightarrow> Inl err
                | Inr matchCount \<Rightarrow>
                    if strict then Inr (matchCount = length kvs \<and> length kvs = length ds)
                    else Inr (matchCount > 0))
           | _ \<Rightarrow> Inl AttributeError))"
| "matchDescription lib (File n d) v strict = Attribute_matchDescription lib (File n d) v"
| "matchDescription lib (BoolParam n d) v strict = Attribute_matchDescription lib (BoolParam n d) v"
| "matchDescription lib (IntParam n d r) v strict = Attribute_matchDescription lib (IntParam n d r) v"
| "matchDescription lib (FloatParam n d r) v strict =
     Attribute_matchDescription lib (FloatParam n d r) v"
| "matchDescription lib (ChoiceParam n d v0 vs ex) v strict =
     Attribute_matchDescription lib (ChoiceParam n d v0 vs ex) v"
| "matchDescription lib (StringParam n d) v strict =
     Attribute_matchDescription lib (StringParam n d) v"
| "matchDescription lib (ColorParam n d) v strict = Attribute_matchDescription lib (ColorParam n d) v"
| "matchItems lib ds [] strict = Inr 0"
| "matchItems lib ds (kv # kvs) strict =
     (case matchKey lib ds (fst kv) (snd kv) strict of
        Inl err \<Rightarrow> Inl err
      | Inr b \<Rightarrow>
          (case matchItems lib ds kvs strict of
             Inl err \<Rightarrow> Inl err
           | Inr matchCount \<Rightarrow> Inr ((if b then 1 else 0) + matchCount)))"
| "matchKey lib [] k v strict = Inr False"
| "matchKey lib (d # ds) k v strict =
     (if k \<in> set (map (\<lambda>a. VStr (name a)) ds) then matchKey lib ds k v strict
      else if k = VStr (name d) then matchDescription lib d v strict
      else Inr False)"

subsection \<open>\<open>checkValueTypes\<close>\<close>

text \<open>
  The loop of \<^verbatim>\<open>GroupAttribute.checkValueTypes\<close> over the children's results: the first
  exception ends it, the non-empty names are kept.
\<close>

fun invalidParams :: "(error + string) list \<Rightarrow> error + string list" where
  "invalidParams [] = Inr []"
| "invalidParams (Inl e # rs) = Inl e"
| "invalidParams (Inr nm # rs) =
     (case invalidParams rs of
        Inl e \<Rightarrow> Inl e
      | Inr nms \<Rightarrow> Inr (if nm \<noteq> [] then nm # nms else nms))"

text \<open>
  \<^verbatim>\<open>ColorParam\<close> does not override \<^verbatim>\<open>checkValueTypes\<close> and inherits the abstract method of
  \<^verbatim>\<open>Attribute\<close>, which raises \<^verbatim>\<open>NotImplementedError\<close>.
\<close>

fun checkValueTypes :: "desc \<Rightarrow> error + string" where
  "checkValueTypes (ListAttribute e n) = checkValueTypes e"
| "checkValueTypes (GroupAttribute ds n) =
     (case invalidParams (map checkValueTypes ds) of
        Inl e \<Rightarrow> Inl e
      | Inr ps \<Rightarrow> if ps \<noteq> [] then Inr (n @ '':'' @ join ('', '' @ n @ '':'') ps) else Inr [])"
| "checkValueTypes (File n v) = (if \<not> isStr v \<and> \<not> callable v then Inr n else Inr [])"
| "checkValueTypes (BoolParam n v) = (if \<not> isBool v then Inr n else Inr [])"
| "checkValueTypes (IntParam n v r) =
     (if \<not> isInt v \<or> (r \<noteq> [] \<and> \<not> list_all isInt r) then Inr n else Inr [])"
| "checkValueTypes (FloatParam n v r) =
     (if \<not> isFloat v \<or> (r \<noteq> [] \<and> \<not> list_all isFloat r) then Inr n else Inr [])"
| "checkValueTypes (ChoiceParam n v v0 vs ex) = Inr []"
| "checkValueTypes (StringParam n v) = (if \<not> isStr v then Inr n else Inr [])"
| "checkValueTypes (ColorParam n v) = Inl NotImplementedError"

section \<open>Node sizes\<close>

text \<open>
  What \<^verbatim>\<open>computeSize\<close> reads of an attribute of a node: \<^verbatim>\<open>param.isLink\<close>,
  \<^verbatim>\<open>param.getLinkParam().node.size\<close>, \<^verbatim>\<open>param.desc\<close>, \<^verbatim>\<open>len(param)\<close> and \<^verbatim>\<open>param.value\<close>
  (read for an \<open>IntParam\<close> only, whose value is an integer). A node is the map from the
  names of its attributes; \<^verbatim>\<open>node.attribute(name)\<close> raises \<^verbatim>\<open>KeyError\<close> for a name it does
  not have.
\<close>

record param =
  isLink :: bool
  linkNodeSize :: int
  paramDesc :: desc
  paramLen :: int
  paramValue :: int

type_synonym node = "string \<Rightarrow> param option"

definition attribute :: "node \<Rightarrow> string \<Rightarrow> error + param" where
  "attribute nd nm = (case nd nm of None \<Rightarrow> Inl KeyError | Some a \<Rightarrow> Inr a)"

fun isListAttribute :: "desc \<Rightarrow> bool" where
  "isListAttribute (ListAttribute e n) = True"
| "isListAttribute d = False"

fun isIntParam :: "desc \<Rightarrow> bool" where
  "isIntParam (IntParam n v r) = True"
| "isIntParam d = False"

definition DynamicNodeSize_computeSize :: "string \<Rightarrow> node \<Rightarrow> error + int" where
  "DynamicNodeSize_computeSize paramName nd =
     (case attribute nd paramName of
        Inl e \<Rightarrow> Inl e
      | Inr a \<Rightarrow>
          if isLink a then Inr (linkNodeSize a)
          else if isListAttribute (paramDesc a) then Inr (paramLen a)
          else if isIntParam (paramDesc a) then Inr (paramValue a)
          else Inr 1)"

text \<open>The loop of \<^verbatim>\<open>MultiDynamicNodeSize.computeSize\<close>, from the size accumulated so far.\<close>

fun sumSizes :: "node \<Rightarrow> string list \<Rightarrow> int \<Rightarrow> error + int" where
  "sumSizes nd [] sz = Inr sz"
| "sumSizes nd (p # ps) sz =
     (case attribute nd p of
        Inl e \<Rightarrow> Inl e
      | Inr a \<Rightarrow>
          if isLink a then sumSizes nd ps (sz + linkNodeSize a)
          else if isListAttribute (paramDesc a) then sumSizes nd ps (sz + paramLen a)
          else sumSizes nd ps (sz + 1))"

definition MultiDynamicNodeSize_computeSize :: "string list \<Rightarrow> node \<Rightarrow> error + int" where
  "MultiDynamicNodeSize_computeSize params nd = sumSizes nd params 0"

definition StaticNodeSize_computeSize :: "int \<Rightarrow> node \<Rightarrow> int" where
  "StaticNodeSize_computeSize sz nd = sz"

section \<open>Command execution\<close>

text \<open>
  A process is identified by its pid. The operating system and \<^verbatim>\<open>psutil\<close> are parameters:
  \<open>children p\<close> is the result of \<^verbatim>\<open>p.children(recursive=True)\<close>, and \<open>terminate q\<close> is what
  \<^verbatim>\<open>q.terminate()\<close> does when it is called: \<open>None\<close> when the process was signalled, the
  exception otherwise (\<open>NoSuchProcess\<close> when the process has gone since it was listed).
\<close>

record procs =
  children :: "nat \<Rightarrow> error + nat list"
  terminate :: "nat \<Rightarrow> error option"

text \<open>
  A chunk, as far as \<^verbatim>\<open>CommandLineNode\<close> reads and writes it. \<open>subprocess\<close> is \<open>None\<close> when
  the chunk has no attribute \<^verbatim>\<open>subprocess\<close> (\<^verbatim>\<open>hasattr\<close> is false), \<open>Some None\<close> when the
  attribute is \<^verbatim>\<open>None\<close>, and \<open>Some (Some p)\<close> when it is the handle of process \<open>p\<close>.
  \<open>statusCommandLine\<close> and \<open>statusReturnCode\<close> are \<^verbatim>\<open>chunk.status.commandLine\<close> and
  \<^verbatim>\<open>chunk.status.returnCode\<close>, \<open>statThreadProc\<close> is \<^verbatim>\<open>chunk.statThread.proc\<close>.
\<close>

record chunk =
  chunkName :: string
  logFile :: string
  statusCommandLine :: "string option"
  statusReturnCode :: "int option"
  subprocess :: "nat option option"
  statThreadProc :: "nat option"

text \<open>
  \<^verbatim>\<open>CommandLineNode.stopProcess\<close>. The \<^verbatim>\<open>try\<close> encloses the whole \<^verbatim>\<open>for\<close> loop, so the first
  \<^verbatim>\<open>NoSuchProcess\<close> ends the loop; any other exception is raised. \<open>terminateAll\<close> is the
  loop within the \<^verbatim>\<open>try\<close>: it returns the exception that ended it, if any, and the
  processes that were signalled, in order. The enumeration
  \<^verbatim>\<open>chunk.subprocess.children(recursive=True) + [chunk.subprocess]\<close> stands before the \<^verbatim>\<open>try\<close>.
\<close>

fun terminateAll :: "procs \<Rightarrow> nat list \<Rightarrow> error option \<times> nat list" where
  "terminateAll os [] = (None, [])"
| "terminateAll os (q # qs) =
     (case terminate os q of
        Some e \<Rightarrow> (Some e, [])
      | None \<Rightarrow> (let (r, signalled) = terminateAll os qs in (r, q # signalled)))"

definition stopProcess :: "procs \<Rightarrow> chunk \<Rightarrow> (error + unit) \<times> nat list" where
  "stopProcess os c =
     (case subprocess c of
        None \<Rightarrow> (Inr (), [])
      | Some None \<Rightarrow> (Inr (), [])
      | Some (Some p) \<Rightarrow>
          (case children os p of
             Inl e \<Rightarrow> (Inl e, [])
           | Inr cs \<Rightarrow>
               (case terminateAll os (cs @ [p]) of
                  (None, signalled) \<Rightarrow> (Inr (), signalled)
                | (Some NoSuchProcess, signalled) \<Rightarrow> (Inr (), signalled)
                | (Some e, signalled) \<Rightarrow> (Inl e, signalled))))"

text \<open>
  What \<^verbatim>\<open>processChunk\<close> meets outside the program: whether the log file can be opened for
  writing, the result of \<^verbatim>\<open>self.buildCommandLine(chunk)\<close>, whether
  \<^verbatim>\<open>chunk.saveStatusFile()\<close> raises, whether a \<^verbatim>\<open>print\<close> raises, the result of
  \<^verbatim>\<open>psutil.Popen(shlex.split(cmd), ...)\<close> (the pid of the new process), what the process
  does until \<^verbatim>\<open>communicate()\<close> and \<^verbatim>\<open>wait()\<close> return (the bytes it writes to its standard
  output and error, both redirected to the log file, and its exit code, or the exception
  that interrupts the wait), whether the log file can be opened for reading, and what
  reading the bytes of a file in text mode gives: the decoded text, with its newlines
  translated, or the exception of the decoder (\<^verbatim>\<open>UnicodeDecodeError\<close> for bytes that are
  not text in the encoding of the locale).
\<close>

record runtime =
  writable :: "string \<Rightarrow> bool"
  buildCommandLine :: "chunk \<Rightarrow> error + string"
  saveStatusFile :: "chunk \<Rightarrow> error option"
  printLine :: "string \<Rightarrow> error option"
  popen :: "string \<Rightarrow> error + nat"
  run :: "nat \<Rightarrow> string \<times> (error + int)"
  readable :: "string \<Rightarrow> bool"
  decode :: "string \<Rightarrow> error + string"

text \<open>
  The effects of \<^verbatim>\<open>processChunk\<close> outside the chunk, in the order in which they happen:
  the status record written by \<^verbatim>\<open>saveStatusFile\<close> (command line and return code), a line
  printed, the launch of the process.
\<close>

datatype event =
    SavedStatus "string option" "int option"
  | Printed string
  | Launched string nat

text \<open>
  The state that \<^verbatim>\<open>processChunk\<close> changes: the chunk, the bytes of the files, the events
  so far.
\<close>

record exec =
  chunkOf :: chunk
  files :: "string \<Rightarrow> string option"
  events :: "event list"

text \<open>\<^verbatim>\<open>'Error on node "{}":\nLog:\n{}'.format(chunk.name, logContent)\<close>.\<close>

definition errorMessage :: "string \<Rightarrow> string \<Rightarrow> string" where
  "errorMessage nm logContent =
     ''Error on node '' @ [CHR 0x22] @ nm @ [CHR 0x22] @ '':'' @ [CHR 0x0A] @ ''Log:'' @ [CHR 0x0A]
       @ logContent"

text \<open>
  The lines \<^verbatim>\<open>' - commandLine: {}'.format(cmd)\<close> and
  \<^verbatim>\<open>' - logFile: {}'.format(chunk.logFile)\<close> that are printed.
\<close>

definition commandLineLine :: "string \<Rightarrow> string" where
  "commandLineLine cmd = '' - commandLine: '' @ cmd"

definition logFileLine :: "string \<Rightarrow> string" where
  "logFileLine f = '' - logFile: '' @ f"

text \<open>
  The first \<^verbatim>\<open>with\<close> block of \<^verbatim>\<open>CommandLineNode.processChunk\<close>; it returns the return code
  of the process. Opening the log file with mode \<^verbatim>\<open>'w'\<close> truncates it; the process then
  writes its output there.
\<close>

definition processChunk_run :: "runtime \<Rightarrow> exec \<Rightarrow> (error + int) \<times> exec" where
  "processChunk_run rt st =
     (let c = chunkOf st in
      if \<not> writable rt (logFile c) then (Inl OSError, st)
      else
        let st1 = st\<lparr>files := (files st)(logFile c \<mapsto> [])\<rparr> in
        case buildCommandLine rt c of
          Inl e \<Rightarrow> (Inl e, st1)
        | Inr cmd \<Rightarrow>
            let c1 = c\<lparr>statusCommandLine := Some cmd\<rparr>;
                st2 = st1\<lparr>chunkOf := c1\<rparr> in
            (case saveStatusFile rt c1 of
               Some e \<Rightarrow> (Inl e, st2)
             | None \<Rightarrow>
                 let st3 = st2\<lparr>events := events st2 @
                             [SavedStatus (statusCommandLine c1) (statusReturnCode c1)]\<rparr> in
                 (case printLine rt (commandLineLine cmd) of
                    Some e \<Rightarrow> (Inl e, st3)
                  | None \<Rightarrow>
                      let st4 = st3\<lparr>events := events st3 @
                                  [Printed (commandLineLine cmd)]\<rparr> in
                      (case printLine rt (logFileLine (logFile c)) of
                         Some e \<Rightarrow> (Inl e, st4)
                       | None \<Rightarrow>
                           let st5 = st4\<lparr>events := events st4 @
                                       [Printed (logFileLine (logFile c))]\<rparr> in
                           (case popen rt cmd of
                              Inl e \<Rightarrow> (Inl e, st5)
                            | Inr p \<Rightarrow>
                                let c2 = c1\<lparr>subprocess := Some (Some p),
                                           statThreadProc := Some p\<rparr>;
                                    st6 = st5\<lparr>chunkOf := c2,
                                            events := events st5 @ [Launched cmd p]\<rparr>;
                                    (out, res) = run rt p;
                                    st7 = st6\<lparr>files := (files st6)(logFile c \<mapsto> out)\<rparr> in
                                (case res of
                                   Inl e \<Rightarrow> (Inl e, st7)
                                 | Inr rc \<Rightarrow>
                                     (Inr rc,
                                      st7\<lparr>chunkOf := c2\<lparr>statusReturnCode := Some rc\<rparr>\<rparr>)))))))"

text \<open>
  \<^verbatim>\<open>with open(chunk.logFile, 'r') as logF: logContent = ''.join(logF.readlines())\<close>:
  opening fails when the file cannot be read or does not exist, and reading decodes the
  bytes of the file.
\<close>

definition readLog :: "runtime \<Rightarrow> exec \<Rightarrow> error + string" where
  "readLog rt st =
     (if \<not> readable rt (logFile (chunkOf st)) then Inl OSError
      else case files st (logFile (chunkOf st)) of
        None \<Rightarrow> Inl OSError
      | Some bytes \<Rightarrow> decode rt bytes)"

text \<open>
  The body of the \<^verbatim>\<open>try\<close> block: after the first \<^verbatim>\<open>with\<close> block, a return code other than
  zero makes it read the log and raise the \<^verbatim>\<open>RuntimeError\<close>.
\<close>

definition processChunk_try :: "runtime \<Rightarrow> exec \<Rightarrow> (error + unit) \<times> exec" where
  "processChunk_try rt st =
     (case processChunk_run rt st of
        (Inl e, st') \<Rightarrow> (Inl e, st')
      | (Inr rc, st') \<Rightarrow>
          if rc \<noteq> 0 then
            (case readLog rt st' of
               Inl e \<Rightarrow> (Inl e, st')
             | Inr logContent \<Rightarrow>
                 (Inl (RuntimeError (errorMessage (chunkName (chunkOf st')) logContent)), st'))
          else (Inr (), st'))"

text \<open>
  \<^verbatim>\<open>processChunk\<close>: \<^verbatim>\<open>except: raise\<close> passes every exception on, and the \<^verbatim>\<open>finally\<close> clause
  sets \<^verbatim>\<open>chunk.subprocess = None\<close>.
\<close>

definition processChunk :: "runtime \<Rightarrow> exec \<Rightarrow> (error + unit) \<times> exec" where
  "processChunk rt st =
     (let (res, st') = processChunk_try rt st
      in (res, st'\<lparr>chunkOf := (chunkOf st')\<lparr>subprocess := Some None\<rparr>\<rparr>))"

section \<open>The stated behaviour of \<open>checkValueTypes\<close>\<close>

text \<open>
  What the description of \<^verbatim>\<open>checkValueTypes\<close> says, to compare the code with.
  \<open>spec_typesValid\<close>: the default value, and the range when there is one, are of the declared
  kind; a choice has nothing to validate. \<open>spec_invalidPaths\<close>: the colon-joined paths of the
  invalid descendants, \<open>group:child\<close>, \<open>group:nested:grandchild\<close>; a list stands for its
  element descriptor.
\<close>

fun spec_typesValid :: "desc \<Rightarrow> bool" where
  "spec_typesValid (File n v) = (isStr v \<or> callable v)"
| "spec_typesValid (BoolParam n v) = isBool v"
| "spec_typesValid (IntParam n v r) = (isInt v \<and> list_all isInt r)"
| "spec_typesValid (FloatParam n v r) = (isFloat v \<and> list_all isFloat r)"
| "spec_typesValid (StringParam n v) = isStr v"
| "spec_typesValid (ColorParam n v) = isStr v"
| "spec_typesValid d = True"

fun spec_invalidPaths :: "desc \<Rightarrow> string list" where
  "spec_invalidPaths (ListAttribute e n) = spec_invalidPaths e"
| "spec_invalidPaths (GroupAttribute ds n) = map (\<lambda>p. n @ '':'' @ p) (concat (map spec_invalidPaths ds))"
| "spec_invalidPaths d = (if spec_typesValid d then [] else [name d])"

text \<open>
  The descriptors on which the code is compared with \<open>spec_invalidPaths\<close>: no \<open>ColorParam\<close>, no
  empty name of a parameter, and no child of a group with more than one invalid
  descendant.
\<close>

fun regular :: "desc \<Rightarrow> bool" where
  "regular (ListAttribute e n) = regular e"
| "regular (GroupAttribute ds n) =
     list_all (\<lambda>c. regular c \<and> length (spec_invalidPaths c) \<le> 1) ds"
| "regular (ColorParam n v) = False"
| "regular d = (name d \<noteq> [])"

section \<open>Properties of the sizing model\<close>

subsection \<open>The block count in double precision\<close>

text \<open>
  For a size and a block size that are positive and below \<open>2^53\<close>, the two conversions
  are exact and the ceiling of the rounded quotient is the ceiling of the exact
  quotient: the code computes \<open>ceil(size / blockSize)\<close>.
\<close>

lemma roundHalfEven_one: "roundHalfEven a 1 = a"
  by (simp add: roundHalfEven_def)

lemma float_of_int_exact:
  assumes "\<bar>n\<bar> < 2 ^ 53"
  shows "float_of_int n = Inr n"
proof -
  have "bitlen \<bar>n\<bar> \<le> 53"
    using assms by (simp add: bitlen_le_iff_power)
  then have sh: "nat (bitlen \<bar>n\<bar> - 53) = 0" by simp
  have lt: "\<bar>n\<bar> < 2 ^ 1024"
    using assms by (rule less_trans) simp
  have sg: "sgn n * \<bar>n\<bar> = n" by (simp add: sgn_if)
  show ?thesis
    unfolding float_of_int_def Let_def sh
    using lt sg by (simp add: roundHalfEven_one)
qed

lemma ceil_round_quot:
  fixes a b P :: int
  assumes b: "0 < b" and a: "0 \<le> a" and P: "1 \<le> P" and bP: "b < 2 * P"
  shows "\<lceil>real_of_int (roundHalfEven (a * P) b) / real_of_int P\<rceil> = \<lceil>real_of_int a / real_of_int b\<rceil>"
proof -
  let ?k = "a div b" and ?r = "a mod b"
  let ?m = "roundHalfEven (a * P) b"
  have r0: "0 \<le> ?r" and rb: "?r < b" using b by simp_all
  have dec: "a = ?k * b + ?r" by simp
  have aP: "a * P = (?k * P) * b + ?r * P"
    by (metis dec distrib_right mult.assoc mult.commute)
  have q: "(a * P) div b = ?k * P + (?r * P) div b"
    using b by (subst aP) (simp add: div_mult_self2 add.commute)
  have rr: "(a * P) mod b = (?r * P) mod b"
    by (subst aP) simp
  show ?thesis
  proof (cases "?r = 0")
    case True
    then have m: "?m = ?k * P" using b q rr by (simp add: roundHalfEven_def Let_def)
    have "real_of_int ?m / real_of_int P = real_of_int ?k" using m P by simp
    moreover have "real_of_int a / real_of_int b = real_of_int ?k"
      using True b dec by (metis add.right_neutral nonzero_mult_div_cancel_right of_int_eq_0_iff of_int_mult less_irrefl)
    ultimately show ?thesis by simp
  next
    case False
    then have rpos: "1 \<le> ?r" using r0 by linarith
    have e: "(?r * P) div b * b + (?r * P) mod b = ?r * P" by (rule div_mult_mod_eq)
    have m0: "0 \<le> (?r * P) mod b" using b by (rule pos_mod_sign)
    have m1: "(?r * P) mod b < b" using b by (rule pos_mod_bound)
    have "?r * P < b * P" using rb P by simp
    also have "b * P = P * b" by (rule mult.commute)
    finally have "?r * P < P * b" .
    then have "(?r * P) div b * b < P * b" using e m0 by linarith
    then have up1: "(?r * P) div b < P" using b by (simp only: mult_less_cancel_right_pos)
    have q0: "0 \<le> (?r * P) div b" using b r0 P by (simp add: pos_imp_zdiv_nonneg_iff)
    have mq: "?m = (a * P) div b \<or> ?m = (a * P) div b + 1"
      by (simp add: roundHalfEven_def Let_def)
    have upper: "?m \<le> (?k + 1) * P"
      using mq q up1 by (auto simp: algebra_simps)
    have lower: "?k * P < ?m"
    proof (cases "(?r * P) div b = 0")
      case True
      then have md0: "(?r * P) mod b = ?r * P" using e by simp
      then have md: "(a * P) mod b = ?r * P" using rr by simp
      have "2 * P \<le> 2 * (?r * P)" using rpos P by simp
      then have "b < 2 * ((a * P) mod b)" using bP md by linarith
      then have "?m = (a * P) div b + 1" by (simp add: roundHalfEven_def Let_def)
      then show ?thesis using q True by simp
    next
      case False
      then have "1 \<le> (?r * P) div b" using q0 by linarith
      then show ?thesis using mq q by auto
    qed
    have Ppos: "0 < real_of_int P" using P by simp
    have bpos: "0 < real_of_int b" using b by simp
    have c1: "\<lceil>real_of_int ?m / real_of_int P\<rceil> = ?k + 1"
    proof (rule ceiling_unique)
      have "real_of_int (?k * P) < real_of_int ?m" using lower by (simp only: of_int_less_iff)
      then show "of_int (?k + 1) - 1 < real_of_int ?m / real_of_int P"
        using Ppos by (simp add: field_simps)
      have "real_of_int ?m \<le> real_of_int ((?k + 1) * P)" using upper by (simp only: of_int_le_iff)
      then show "real_of_int ?m / real_of_int P \<le> of_int (?k + 1)"
        using Ppos by (simp add: field_simps)
    qed
    have c2: "\<lceil>real_of_int a / real_of_int b\<rceil> = ?k + 1"
    proof (rule ceiling_unique)
      have "?k * b < a" using dec rpos by linarith
      then have "real_of_int (?k * b) < real_of_int a" by (simp only: of_int_less_iff)
      then show "of_int (?k + 1) - 1 < real_of_int a / real_of_int b"
        using bpos by (simp add: field_simps)
      have "(?k + 1) * b = ?k * b + b" by (simp add: algebra_simps)
      then have "a \<le> (?k + 1) * b" using dec rb by linarith
      then have "real_of_int a \<le> real_of_int ((?k + 1) * b)" by (simp only: of_int_le_iff)
      then show "real_of_int a / real_of_int b \<le> of_int (?k + 1)"
        using bpos by (simp add: field_simps)
    qed
    show ?thesis using c1 c2 by simp
  qed
qed

lemma powi_nat_split: "(2::real) powi d = 2 ^ nat d / 2 ^ nat (- d)"
  by (cases "0 \<le> d") (simp_all add: power_int_def power_one_over)

lemma scaled_le_iff:
  fixes a b :: int
  shows "b * 2 ^ nat d \<le> a * 2 ^ nat (- d) \<longleftrightarrow> real_of_int b * 2 powi d \<le> real_of_int a"
proof -
  have "b * 2 ^ nat d \<le> a * 2 ^ nat (- d)
        \<longleftrightarrow> real_of_int (b * 2 ^ nat d) \<le> real_of_int (a * 2 ^ nat (- d))"
    by (simp only: of_int_le_iff)
  also have "\<dots> \<longleftrightarrow> real_of_int b * 2 powi d \<le> real_of_int a"
    by (simp add: powi_nat_split field_simps)
  finally show ?thesis .
qed

lemma bitlen_powi:
  assumes "0 < (x::int)"
  shows "2 powi (bitlen x - 1) \<le> real_of_int x" and "real_of_int x < 2 powi (bitlen x)"
proof -
  have b1: "1 \<le> bitlen x" using assms by (simp add: bitlen_alt_def)
  have lo: "2 ^ nat (bitlen x - 1) \<le> x" and hi: "x < 2 ^ nat (bitlen x)"
    using bitlen_bounds [OF assms] by simp_all
  have "real_of_int (2 ^ nat (bitlen x - 1)) \<le> real_of_int x" using lo by (simp only: of_int_le_iff)
  then show "2 powi (bitlen x - 1) \<le> real_of_int x" using b1 by (simp add: power_int_def)
  have "real_of_int x < real_of_int (2 ^ nat (bitlen x))" using hi by (simp only: of_int_less_iff)
  then show "real_of_int x < 2 powi (bitlen x)" using b1 by (simp add: power_int_def)
qed

text \<open>The exponent \<open>f\<close> that \<open>float_div\<close> computes is the binary exponent of the quotient.\<close>

lemma exponent_bounds:
  fixes a b :: int
  assumes a: "0 < a" and b: "0 < b"
  defines "d \<equiv> bitlen a - bitlen b"
  defines "f \<equiv> (if b * 2 ^ nat d \<le> a * 2 ^ nat (- d) then d else d - 1)"
  shows "real_of_int b * 2 powi f \<le> real_of_int a" and "real_of_int a < real_of_int b * 2 powi (f + 1)"
proof -
  note al = bitlen_powi(1) [OF a] and ah = bitlen_powi(2) [OF a]
    and bl = bitlen_powi(1) [OF b] and bh = bitlen_powi(2) [OF b]
  have bpos: "0 < real_of_int b" using b by simp
  have up: "real_of_int a < real_of_int b * 2 powi (d + 1)"
  proof -
    have "real_of_int a < 2 powi (bitlen a)" by (rule ah)
    also have "\<dots> = 2 powi (bitlen b - 1) * 2 powi (d + 1)"
      by (simp add: d_def power_int_add [symmetric])
    also have "\<dots> \<le> real_of_int b * 2 powi (d + 1)"
      using bl by (intro mult_right_mono) simp_all
    finally show ?thesis .
  qed
  have lo: "real_of_int b * 2 powi (d - 1) \<le> real_of_int a"
  proof -
    have "real_of_int b * 2 powi (d - 1) \<le> 2 powi (bitlen b) * 2 powi (d - 1)"
      using bh by (intro mult_right_mono) simp_all
    also have "\<dots> = 2 powi (bitlen a - 1)"
      by (simp add: d_def power_int_add [symmetric])
    also have "\<dots> \<le> real_of_int a" by (rule al)
    finally show ?thesis .
  qed
  show "real_of_int b * 2 powi f \<le> real_of_int a"
    using lo by (simp add: f_def scaled_le_iff)
  show "real_of_int a < real_of_int b * 2 powi (f + 1)"
    using up by (auto simp add: f_def scaled_le_iff)
qed

lemma powi_less_imp: "(2::real) powi m < 2 powi n \<Longrightarrow> m < n"
proof (rule ccontr)
  assume less: "(2::real) powi m < 2 powi n" and "\<not> m < n"
  then have "n \<le> m" by simp
  then have "(2::real) powi n \<le> 2 powi m" by (intro power_int_increasing) simp_all
  with less show False by simp
qed

lemma float_div_exact_ceil:
  fixes a b :: int
  assumes a: "0 < a" and b: "0 < b" and a53: "a < 2 ^ 53" and b53: "b < 2 ^ 53"
  shows "\<lceil>float_div a b\<rceil> = \<lceil>real_of_int a / real_of_int b\<rceil>"
proof -
  define d where "d = bitlen a - bitlen b"
  define f where "f = (if b * 2 ^ nat d \<le> a * 2 ^ nat (- d) then d else d - 1)"
  define P :: int where "P = 2 ^ nat (52 - f)"
  define T :: real where "T = 2 powi 53"
  define X :: real where "X = 2 powi f"
  have Xpos: "0 < X" by (simp add: X_def)
  have F1: "real_of_int b * X \<le> real_of_int a"
    and F3: "real_of_int a < real_of_int b * 2 powi (f + 1)"
    unfolding X_def f_def d_def using a b by (rule exponent_bounds)+
  have "real_of_int a < real_of_int (2 ^ 53)" using a53 by (simp only: of_int_less_iff)
  then have aT: "real_of_int a < T" by (simp add: T_def)
  have "real_of_int b < real_of_int (2 ^ 53)" using b53 by (simp only: of_int_less_iff)
  then have bT: "real_of_int b < T" by (simp add: T_def)
  have a1: "1 \<le> real_of_int a" and b1: "1 \<le> real_of_int b" using a b by simp_all
  have "1 * X \<le> real_of_int b * X"
    using b1 Xpos by (intro mult_right_mono) simp_all
  then have "X < T" using F1 aT by simp
  then have "f < 53" unfolding X_def T_def by (rule powi_less_imp)
  then have f_hi: "f \<le> 52" by simp
  have "real_of_int b * 2 powi (f + 1) \<le> T * 2 powi (f + 1)"
    using bT by (intro mult_right_mono) simp_all
  then have "1 < T * 2 powi (f + 1)" using F3 a1 by linarith
  also have "T * 2 powi (f + 1) = 2 powi (f + 54)"
  proof -
    have "(2::real) powi (53 + (f + 1)) = 2 powi 53 * 2 powi (f + 1)"
      by (rule power_int_add) simp
    moreover have "53 + (f + 1) = f + 54" by simp
    ultimately show ?thesis unfolding T_def by simp
  qed
  finally have "(2::real) powi 0 < 2 powi (f + 54)" by simp
  then have "0 < f + 54" by (rule powi_less_imp)
  then have f_lo: "- 53 \<le> f" by simp
  have e: "max (f - 52) (- 1074) = f - 52" using f_lo by simp
  have ne: "nat (f - 52) = 0" "nat (- (f - 52)) = nat (52 - f)" using f_hi by simp_all
  have Ppos: "1 \<le> P" by (simp add: P_def)
  have rP: "real_of_int P = 2 powi (52 - f)" using f_hi by (simp add: P_def power_int_def)
  have "(2::real) powi (1 + (52 - f)) = 2 powi 1 * 2 powi (52 - f)"
    by (rule power_int_add) simp
  moreover have "(2::real) powi ((1 + (52 - f)) + f) = 2 powi (1 + (52 - f)) * 2 powi f"
    by (rule power_int_add) simp
  moreover have "(1 + (52 - f)) + f = 53" by simp
  ultimately have "T = 2 * 2 powi (52 - f) * X" unfolding T_def X_def by simp
  then have TX: "T = real_of_int (2 * P) * X" using rP by simp
  have "real_of_int b * X < real_of_int (2 * P) * X" using F1 aT TX by linarith
  then have "real_of_int b < real_of_int (2 * P)" using Xpos by (simp only: mult_less_cancel_right_pos)
  then have bP: "b < 2 * P" by (simp only: of_int_less_iff)
  have ab: "\<bar>a\<bar> = a" "\<bar>b\<bar> = b" "sgn a = 1" "sgn b = 1" "(a = 0) = False"
    using a b by simp_all
  have "float_div a b =
          real_of_int (1 * 1 * roundHalfEven (a * 2 ^ nat (52 - f)) (b * 2 ^ 0) * 2 ^ 0)
            / real_of_int (2 ^ nat (52 - f))"
    by (simp only: float_div_def ab if_False Let_def d_def [symmetric] f_def [symmetric] e ne)
  then have fd: "float_div a b = real_of_int (roundHalfEven (a * P) b) / real_of_int P"
    by (simp add: P_def)
  show ?thesis
    unfolding fd using b a Ppos bP by (intro ceil_round_quot) simp_all
qed

lemma nbBlocksOf_exact:
  assumes "0 < s" and "0 < b" and "s < 2 ^ 53" and "b < 2 ^ 53"
  shows "nbBlocksOf s b = Inr (spec_nbBlocks s b)"
proof -
  have "float_of_int s = Inr s" "float_of_int b = Inr b"
    using assms by (simp_all add: float_of_int_exact)
  then show ?thesis
    using assms by (simp add: nbBlocksOf_def spec_nbBlocks_def float_div_exact_ceil)
qed

lemma getRanges_of_nbBlocks:
  assumes "parBlockSize p = b" and "b \<noteq> 0"
  shows "nbBlocksOf s b = Inr n \<Longrightarrow>
           getRanges p s =
             Inr (map (\<lambda>i. \<lparr>iteration = int i, blockSize = b, fullSize = s\<rparr>) [0..<nat n])"
    and "nbBlocksOf s b = Inl e \<Longrightarrow> getRanges p s = Inl e"
  using assms by (simp_all add: getRanges_def getSizes_def)

lemma getRanges_exact:
  assumes "0 < b" and "0 < s" and "b < 2 ^ 53" and "s < 2 ^ 53" and "parBlockSize p = b"
  shows "getRanges p s =
           Inr (map (\<lambda>i. \<lparr>iteration = int i, blockSize = b, fullSize = s\<rparr>)
                  [0..<nat (spec_nbBlocks s b)])"
  using assms by (intro getRanges_of_nbBlocks nbBlocksOf_exact) simp_all

text \<open>Beyond the range of the doubles, \<^verbatim>\<open>float(size)\<close> raises \<^verbatim>\<open>OverflowError\<close>.\<close>

lemma nbBlocksOf_overflow: "nbBlocksOf (2 ^ 1024) 3 = Inl OverflowError"
  by code_simp

lemma getRanges_overflow:
  "getRanges \<lparr>staticNbBlocks = 0, parBlockSize = 3\<rparr> (2 ^ 1024) = Inl OverflowError"
  by (rule getRanges_of_nbBlocks(2) [OF _ _ nbBlocksOf_overflow]) simp_all

text \<open>Above \<open>2^53\<close> the conversion of the size rounds.\<close>

lemma nbBlocksOf_rounds_large: "nbBlocksOf (2 ^ 53 + 1) (2 ^ 53) = Inr 1"
  by code_simp

subsection \<open>The ranges\<close>

lemma spec_nbBlocks_div: "spec_nbBlocks sz b = - ((- sz) div b)"
  unfolding spec_nbBlocks_def by (rule ceiling_divide_eq_div)

lemma spec_nbBlocks_pos: "0 < b \<Longrightarrow> 0 < s \<Longrightarrow> 0 < spec_nbBlocks s b"
  unfolding spec_nbBlocks_def by (simp add: zero_less_ceiling)

lemma spec_nbBlocks_upper: "0 < b \<Longrightarrow> (spec_nbBlocks s b - 1) * b < s"
proof -
  assume b: "0 < b"
  have e: "- s = ((- s) div b) * b + (- s) mod b" by simp
  have r: "(- s) mod b < b" using b by (rule pos_mod_bound)
  have "(- ((- s) div b) - 1) * b = - (((- s) div b) * b) - b" by (simp add: algebra_simps)
  also have "\<dots> = s + (- s) mod b - b" using e by linarith
  also have "\<dots> < s" using r by linarith
  finally show ?thesis unfolding spec_nbBlocks_div .
qed

lemma spec_nbBlocks_lower: "0 < b \<Longrightarrow> s \<le> spec_nbBlocks s b * b"
proof -
  assume b: "0 < b"
  have e: "- s = ((- s) div b) * b + (- s) mod b" by simp
  have r: "0 \<le> (- s) mod b" using b by (rule pos_mod_sign)
  have "(- ((- s) div b)) * b = - (((- s) div b) * b)" by (simp add: algebra_simps)
  also have "\<dots> = s + (- s) mod b" using e by linarith
  finally show ?thesis unfolding spec_nbBlocks_div using r by linarith
qed

text \<open>
  C3, as stated, fails on a large size: with \<open>blockSize = 2^53\<close> and a node of size
  \<open>2^53 + 1\<close>, \<^verbatim>\<open>float(size)\<close> rounds to \<open>2^53\<close>, the quotient is \<open>1.0\<close>, and \<open>getRanges\<close>
  returns one range, where \<open>ceil(s/b)\<close> is 2.
\<close>

theorem getRanges_rounds_large:
  "getRanges \<lparr>staticNbBlocks = 0, parBlockSize = 2 ^ 53\<rparr> (2 ^ 53 + 1) =
     Inr [\<lparr>iteration = 0, blockSize = 2 ^ 53, fullSize = 2 ^ 53 + 1\<rparr>]
   \<and> \<lceil>real_of_int (2 ^ 53 + 1) / real_of_int (2 ^ 53)\<rceil> = (2::int)"
proof
  have "getRanges \<lparr>staticNbBlocks = 0, parBlockSize = 2 ^ 53\<rparr> (2 ^ 53 + 1) =
          Inr (map (\<lambda>i. \<lparr>iteration = int i, blockSize = 2 ^ 53, fullSize = 2 ^ 53 + 1\<rparr>)
                 [0..<nat 1])"
    by (rule getRanges_of_nbBlocks(1) [OF _ _ nbBlocksOf_rounds_large]) simp_all
  then show "getRanges \<lparr>staticNbBlocks = 0, parBlockSize = 2 ^ 53\<rparr> (2 ^ 53 + 1) =
               Inr [\<lparr>iteration = 0, blockSize = 2 ^ 53, fullSize = 2 ^ 53 + 1\<rparr>]"
    by simp
  show "\<lceil>real_of_int (2 ^ 53 + 1) / real_of_int (2 ^ 53)\<rceil> = (2::int)"
    by (simp add: ceiling_divide_eq_div)
qed

text \<open>
  C3, amended. With \<open>blockSize = b > 0\<close> and a node of size \<open>s > 0\<close>, both below \<open>2^53\<close>,
  \<open>getRanges\<close> returns \<open>ceil(s/b)\<close> ranges; the range at position \<open>i\<close> has iteration \<open>i\<close>,
  start \<open>i * b\<close> and carries the pair \<open>(b, s)\<close>; every range but the last has
  \<open>effectiveBlockSize = b\<close>.
\<close>

theorem getRanges_blocks:
  assumes b: "0 < b" and s: "0 < s" and b53: "b < 2 ^ 53" and s53: "s < 2 ^ 53"
    and p: "parBlockSize p = b"
  shows "\<exists>rs. getRanges p s = Inr rs
           \<and> int (length rs) = \<lceil>real_of_int s / real_of_int b\<rceil>
           \<and> (\<forall>i < length rs. iteration (rs ! i) = int i \<and> start (rs ! i) = int i * b
                  \<and> blockSize (rs ! i) = b \<and> fullSize (rs ! i) = s)
           \<and> (\<forall>i. Suc i < length rs \<longrightarrow> effectiveBlockSize (rs ! i) = b)"
proof -
  let ?n = "spec_nbBlocks s b"
  let ?rs = "map (\<lambda>i. \<lparr>iteration = int i, blockSize = b, fullSize = s\<rparr>) [0..<nat ?n]"
  have gr: "getRanges p s = Inr ?rs"
    using b s b53 s53 p by (rule getRanges_exact)
  have npos: "0 < ?n" using b s by (rule spec_nbBlocks_pos)
  have len: "int (length ?rs) = \<lceil>real_of_int s / real_of_int b\<rceil>"
    using npos by (simp add: spec_nbBlocks_def)
  have fields: "\<forall>i < length ?rs. iteration (?rs ! i) = int i \<and> start (?rs ! i) = int i * b
                  \<and> blockSize (?rs ! i) = b \<and> fullSize (?rs ! i) = s"
    by (simp add: start_def)
  have eff: "\<forall>i. Suc i < length ?rs \<longrightarrow> effectiveBlockSize (?rs ! i) = b"
  proof (intro allI impI)
    fix i assume less: "Suc i < length ?rs"
    then have i: "int i + 1 \<le> ?n - 1" by simp
    have "(int i + 1) * b \<le> (?n - 1) * b"
      using i b by (intro mult_right_mono) simp_all
    also have "\<dots> < s" using b by (rule spec_nbBlocks_upper)
    finally have "(int i + 1) * b < s" .
    then have "b \<le> s - int i * b + 1" by (simp add: algebra_simps)
    moreover have "?rs ! i = \<lparr>iteration = int i, blockSize = b, fullSize = s\<rparr>"
      using less by simp
    ultimately show "effectiveBlockSize (?rs ! i) = b"
      by (simp add: effectiveBlockSize_def start_def Let_def)
  qed
  from gr len fields eff show ?thesis by blast
qed

theorem getRanges_blocks_witness:
  "(0::int) < 2 \<and> (0::int) < 5 \<and> (2::int) < 2 ^ 53 \<and> (5::int) < 2 ^ 53 \<and>
   (\<exists>rs. getRanges \<lparr>staticNbBlocks = 0, parBlockSize = 2\<rparr> 5 = Inr rs
      \<and> int (length rs) = \<lceil>real_of_int 5 / real_of_int 2\<rceil>
      \<and> (\<forall>i < length rs. iteration (rs ! i) = int i \<and> start (rs ! i) = int i * 2
             \<and> blockSize (rs ! i) = 2 \<and> fullSize (rs ! i) = 5)
      \<and> (\<forall>i. Suc i < length rs \<longrightarrow> effectiveBlockSize (rs ! i) = 2))"
  using getRanges_blocks [of 2 5 "\<lparr>staticNbBlocks = 0, parBlockSize = 2\<rparr>"] by simp

text \<open>
  What the ranges of a node cover, for \<open>b > 0\<close> and \<open>s > 0\<close> below \<open>2^53\<close>: they are pairwise disjoint,
  and their union is \<open>[0, s)\<close> when \<open>b\<close> divides \<open>s\<close> and \<open>[0, s + 1)\<close> otherwise. Every
  range but the last is a full block \<open>[i * b, (i + 1) * b)\<close>; the last one ends at \<open>s\<close>
  when \<open>b\<close> divides \<open>s\<close> and at \<open>s + 1\<close> otherwise.
\<close>

lemma spec_nbBlocks_times: "0 < b \<Longrightarrow> spec_nbBlocks s b * b = s + (- s) mod b"
proof -
  assume b: "0 < b"
  have e: "- s = ((- s) div b) * b + (- s) mod b" by simp
  have "(- ((- s) div b)) * b = - (((- s) div b) * b)" by (simp add: algebra_simps)
  also have "\<dots> = s + (- s) mod b" using e by linarith
  finally show ?thesis unfolding spec_nbBlocks_div .
qed

lemma full_block_end:
  assumes b: "0 < b" and i: "int i + 1 < spec_nbBlocks s b"
  shows "rangeEnd \<lparr>iteration = int i, blockSize = b, fullSize = s\<rparr> = (int i + 1) * b"
proof -
  have "(int i + 1) * b \<le> (spec_nbBlocks s b - 1) * b"
    using i b by (intro mult_right_mono) simp_all
  also have "\<dots> < s" using b by (rule spec_nbBlocks_upper)
  finally have "b \<le> s - int i * b + 1" by (simp add: algebra_simps)
  then show ?thesis
    by (simp add: rangeEnd_def effectiveBlockSize_def start_def Let_def algebra_simps)
qed

lemma last_block_end:
  assumes b: "0 < b" and i: "int i + 1 = spec_nbBlocks s b"
  shows "rangeEnd \<lparr>iteration = int i, blockSize = b, fullSize = s\<rparr> =
           (if b dvd s then s else s + 1)"
proof -
  let ?r = "(- s) mod b"
  have r0: "0 \<le> ?r" using b by (rule pos_mod_sign)
  have rb: "?r < b" using b by (rule pos_mod_bound)
  have "(int i + 1) * b = s + ?r" using spec_nbBlocks_times [OF b, of s] i by simp
  then have st: "int i * b = s + ?r - b" by (simp add: algebra_simps)
  have dv: "b dvd s \<longleftrightarrow> ?r = 0" by (simp add: dvd_eq_mod_eq_0 [symmetric])
  show ?thesis
  proof (cases "b dvd s")
    case True
    then have "?r = 0" using dv by simp
    then show ?thesis using True st b
      by (simp add: rangeEnd_def effectiveBlockSize_def start_def Let_def)
  next
    case False
    then have "1 \<le> ?r" using dv r0 by linarith
    then show ?thesis using False st b rb
      by (auto simp add: rangeEnd_def effectiveBlockSize_def start_def Let_def)
  qed
qed

lemma covered_full:
  assumes "0 < b" and "int i + 1 < spec_nbBlocks s b"
  shows "covered \<lparr>iteration = int i, blockSize = b, fullSize = s\<rparr> = {int i * b ..< (int i + 1) * b}"
  using full_block_end [OF assms] by (simp add: covered_def start_def)

lemma covered_last:
  assumes "0 < b" and "int i + 1 = spec_nbBlocks s b"
  shows "covered \<lparr>iteration = int i, blockSize = b, fullSize = s\<rparr> =
           {int i * b ..< (if b dvd s then s else s + 1)}"
  using last_block_end [OF assms] by (simp add: covered_def start_def)

lemma bound_le_blocks:
  assumes b: "0 < b"
  shows "(if b dvd s then s else s + 1) \<le> spec_nbBlocks s b * b"
proof -
  let ?r = "(- s) mod b"
  have r0: "0 \<le> ?r" using b by (rule pos_mod_sign)
  have dv: "b dvd s \<longleftrightarrow> ?r = 0" by (simp add: dvd_eq_mod_eq_0 [symmetric])
  show ?thesis using spec_nbBlocks_times [OF b, of s] r0 dv by (cases "b dvd s") auto
qed

lemma getRanges_tiling:
  assumes b: "0 < b" and s: "0 < s" and b53: "b < 2 ^ 53" and s53: "s < 2 ^ 53"
    and p: "parBlockSize p = b"
  shows "\<exists>rs. getRanges p s = Inr rs
           \<and> \<Union> (covered ` set rs) = {0 ..< (if b dvd s then s else s + 1)}
           \<and> (\<forall>i j. i < j \<and> j < length rs \<longrightarrow> covered (rs ! i) \<inter> covered (rs ! j) = {})"
proof -
  let ?n = "spec_nbBlocks s b"
  let ?N = "nat ?n"
  let ?E = "if b dvd s then s else s + 1"
  let ?mk = "\<lambda>i. \<lparr>iteration = int i, blockSize = b, fullSize = s\<rparr>"
  let ?rs = "map ?mk [0..<?N]"
  have gr: "getRanges p s = Inr ?rs"
    using b s b53 s53 p by (rule getRanges_exact)
  have npos: "0 < ?n" using b s by (rule spec_nbBlocks_pos)
  have up: "(?n - 1) * b < s" using b by (rule spec_nbBlocks_upper)
  have sE: "s \<le> ?E" by simp
  have En: "?E \<le> ?n * b" using b by (rule bound_le_blocks)
  have cov: "covered (?mk i) = {int i * b ..< (if int i + 1 < ?n then (int i + 1) * b else ?E)}"
    if "i < ?N" for i
  proof (cases "int i + 1 < ?n")
    case True
    then show ?thesis using covered_full [OF b True] by simp
  next
    case False
    then have eq: "int i + 1 = ?n" using that by linarith
    show ?thesis using covered_last [OF b eq] False by simp
  qed
  have full_le: "(int i + 1) * b \<le> (?n - 1) * b" if "int i + 1 < ?n" for i
    using that b by (intro mult_right_mono) simp_all
  have union: "\<Union> (covered ` set ?rs) = {0 ..< ?E}"
  proof (rule set_eqI, rule iffI)
    fix x assume "x \<in> \<Union> (covered ` set ?rs)"
    then obtain i where i: "i < ?N" and x: "x \<in> covered (?mk i)" by auto
    have lo: "int i * b \<le> x"
      and hi: "x < (if int i + 1 < ?n then (int i + 1) * b else ?E)"
      using x cov [OF i] by simp_all
    have "0 \<le> int i * b" using b by simp
    then have x0: "0 \<le> x" using lo by linarith
    have "x < ?E"
    proof (cases "int i + 1 < ?n")
      case True
      then have "x < (int i + 1) * b" using hi by simp
      also have "\<dots> \<le> (?n - 1) * b" using True by (rule full_le)
      also have "\<dots> < s" by (rule up)
      also have "s \<le> ?E" by (rule sE)
      finally show ?thesis .
    next
      case False
      then show ?thesis using hi by simp
    qed
    then show "x \<in> {0 ..< ?E}" using x0 by simp
  next
    fix x assume "x \<in> {0 ..< ?E}"
    then have x0: "0 \<le> x" and xE: "x < ?E" by simp_all
    show "x \<in> \<Union> (covered ` set ?rs)"
    proof (cases "x < (?n - 1) * b")
      case True
      have e: "x div b * b + x mod b = x" by (rule div_mult_mod_eq)
      have m0: "0 \<le> x mod b" using b by (rule pos_mod_sign)
      have m1: "x mod b < b" using b by (rule pos_mod_bound)
      have ql: "x div b * b \<le> x" using e m0 by linarith
      have "(x div b + 1) * b = x div b * b + b" by (simp add: algebra_simps)
      then have qh: "x < (x div b + 1) * b" using e m1 by linarith
      have d0: "0 \<le> x div b" using x0 b by (simp add: pos_imp_zdiv_nonneg_iff)
      then obtain i where ii: "x div b = int i" by (rule nonneg_int_cases)
      have "x div b * b < (?n - 1) * b" using ql True by linarith
      then have "x div b < ?n - 1" using b by (simp only: mult_less_cancel_right_pos)
      then have less: "int i + 1 < ?n" using ii by simp
      then have iN: "i < ?N" by linarith
      have lo: "int i * b \<le> x" using ql ii by simp
      have hi: "x < (int i + 1) * b" using qh ii by simp
      have "x \<in> covered (?mk i)" using cov [OF iN] less lo hi by simp
      moreover have "?mk i \<in> set ?rs" using iN by simp
      ultimately show ?thesis by blast
    next
      case False
      have "0 \<le> ?n - 1" using npos by simp
      then obtain k where kk: "?n - 1 = int k" by (rule nonneg_int_cases)
      have iN: "k < ?N" using kk npos by linarith
      have nl: "\<not> int k + 1 < ?n" using kk by simp
      have "(int k) * b \<le> x" using False kk by simp
      then have "x \<in> covered (?mk k)" using cov [OF iN] nl xE by simp
      moreover have "?mk k \<in> set ?rs" using iN by simp
      ultimately show ?thesis by blast
    qed
  qed
  have disj: "\<forall>i j. i < j \<and> j < length ?rs \<longrightarrow> covered (?rs ! i) \<inter> covered (?rs ! j) = {}"
  proof (intro allI impI)
    fix i j assume ij: "i < j \<and> j < length ?rs"
    then have jN: "j < ?N" by simp
    then have iN: "i < ?N" using ij by linarith
    have less: "int i + 1 < ?n" using ij jN by linarith
    have ci: "covered (?mk i) = {int i * b ..< (int i + 1) * b}"
      using cov [OF iN] less by simp
    have "(int i + 1) * b \<le> int j * b"
      using ij b by (intro mult_right_mono) simp_all
    moreover have "covered (?mk j) \<subseteq> {int j * b ..}"
      using cov [OF jN] by auto
    ultimately have "covered (?mk i) \<inter> covered (?mk j) = {}"
      using ci by auto
    then show "covered (?rs ! i) \<inter> covered (?rs ! j) = {}"
      using iN jN by simp
  qed
  from gr union disj show ?thesis by blast
qed

text \<open>
  C1. The ranges of a node do not tile \<open>[0, s)\<close> when the block size does not divide the
  size: with \<open>s = 5\<close> and \<open>b = 2\<close> the three ranges are \<open>[0, 2)\<close>, \<open>[2, 4)\<close> and \<open>[4, 6)\<close>,
  and the last one covers the index \<open>5\<close>, which is not below the size. The \<open>+ 1\<close> of
  \<open>remaining\<close> in \<open>effectiveBlockSize\<close> makes the last range one index too long.
\<close>

theorem getRanges_overrun:
  "getRanges \<lparr>staticNbBlocks = 0, parBlockSize = 2\<rparr> 5 =
     Inr [\<lparr>iteration = 0, blockSize = 2, fullSize = 5\<rparr>,
          \<lparr>iteration = 1, blockSize = 2, fullSize = 5\<rparr>,
          \<lparr>iteration = 2, blockSize = 2, fullSize = 5\<rparr>]
   \<and> map (\<lambda>r. (start r, rangeEnd r))
         [\<lparr>iteration = 0, blockSize = 2, fullSize = 5\<rparr>,
          \<lparr>iteration = 1, blockSize = 2, fullSize = 5\<rparr>,
          \<lparr>iteration = 2, blockSize = 2, fullSize = 5\<rparr>] = [(0, 2), (2, 4), (4, 6)]
   \<and> (5::int) \<in> covered \<lparr>iteration = 2, blockSize = 2, fullSize = 5\<rparr>"
  using getRanges_exact [of 2 5 "\<lparr>staticNbBlocks = 0, parBlockSize = 2\<rparr>"]
  by (simp add: spec_nbBlocks_def start_def rangeEnd_def effectiveBlockSize_def covered_def
        upt_rec)

text \<open>
  C10. A \<open>Parallelization\<close> with \<open>blockSize = 0\<close> and \<open>staticNbBlocks = 0\<close>: \<open>getSizes\<close>
  returns \<open>None\<close>, and \<open>getRanges\<close> and \<open>getRange\<close> raise \<open>TypeError\<close> at the unpacking
  (they do not return an empty list of ranges).
\<close>

theorem not_parallelized_no_sizes:
  "getSizes \<lparr>staticNbBlocks = 0, parBlockSize = 0\<rparr> sz = Inr None
   \<and> getRanges \<lparr>staticNbBlocks = 0, parBlockSize = 0\<rparr> sz = Inl TypeError
   \<and> getRange \<lparr>staticNbBlocks = 0, parBlockSize = 0\<rparr> sz i = Inl TypeError"
  by (simp add: getSizes_def getRanges_def getRange_def)


section \<open>Properties of the node sizes\<close>

text \<open>
  Where no named attribute is an \<open>IntParam\<close> that is neither a link nor a list, and every
  name is an attribute of the node, the loop of \<open>MultiDynamicNodeSize\<close> adds up the sizes
  that \<open>DynamicNodeSize\<close> computes.
\<close>

lemma sumSizes_dynamic:
  assumes "\<And>p. p \<in> set ps \<Longrightarrow>
             \<exists>a. nd p = Some a \<and> (isLink a \<or> isListAttribute (paramDesc a) \<or> \<not> isIntParam (paramDesc a))"
  shows "sumSizes nd ps acc =
           Inr (acc + sum_list (map (\<lambda>p. case DynamicNodeSize_computeSize p nd of
                                             Inr n \<Rightarrow> n | Inl e \<Rightarrow> 0) ps))"
  using assms
proof (induction ps arbitrary: acc)
  case Nil
  then show ?case by simp
next
  case (Cons p ps)
  obtain a where a: "nd p = Some a"
    and k: "isLink a \<or> isListAttribute (paramDesc a) \<or> \<not> isIntParam (paramDesc a)"
    using Cons.prems [of p] by auto
  have rest: "sumSizes nd ps acc' =
           Inr (acc' + sum_list (map (\<lambda>p. case DynamicNodeSize_computeSize p nd of
                                             Inr n \<Rightarrow> n | Inl e \<Rightarrow> 0) ps))" for acc'
    using Cons.IH Cons.prems by simp
  show ?case using a k
    by (auto simp add: rest attribute_def DynamicNodeSize_computeSize_def)
qed

text \<open>
  C2. \<open>MultiDynamicNodeSize\<close> does not resolve an attribute as \<open>DynamicNodeSize\<close> does: it
  has no case for an \<open>IntParam\<close>. For a node whose attribute \<open>n\<close> is an \<open>IntParam\<close> of
  value 5 and is not a link, \<open>MultiDynamicNodeSize([n])\<close> computes 1, while
  \<open>DynamicNodeSize(n)\<close> computes 5.
\<close>

theorem multi_ignores_int_value:
  "MultiDynamicNodeSize_computeSize [''n'']
     (Map.empty(''n'' \<mapsto> \<lparr>isLink = False, linkNodeSize = 0,
        paramDesc = IntParam ''n'' (VInt 0) [], paramLen = 0, paramValue = 5\<rparr>)) = Inr 1
   \<and> DynamicNodeSize_computeSize ''n''
     (Map.empty(''n'' \<mapsto> \<lparr>isLink = False, linkNodeSize = 0,
        paramDesc = IntParam ''n'' (VInt 0) [], paramLen = 0, paramValue = 5\<rparr>)) = Inr 5"
  by (simp add: MultiDynamicNodeSize_computeSize_def DynamicNodeSize_computeSize_def attribute_def)

section \<open>Properties of the attribute descriptors\<close>

text \<open>
  \<open>matchDescription\<close> of a \<open>File\<close>, \<open>BoolParam\<close>, \<open>IntParam\<close>, \<open>FloatParam\<close>,
  \<open>StringParam\<close> or \<open>ColorParam\<close> returns a boolean on every value.
\<close>

lemma scalar_match_returns:
  "matchDescription lib (File n d) v strict \<in> {Inr True, Inr False}"
  "matchDescription lib (BoolParam n d) v strict \<in> {Inr True, Inr False}"
  "matchDescription lib (IntParam n d r) v strict \<in> {Inr True, Inr False}"
  "matchDescription lib (FloatParam n d r) v strict \<in> {Inr True, Inr False}"
  "matchDescription lib (StringParam n d) v strict \<in> {Inr True, Inr False}"
  "matchDescription lib (ColorParam n d) v strict \<in> {Inr True, Inr False}"
  by (auto simp add: Attribute_matchDescription_def File_validateValue_def
        BoolParam_validateValue_def IntParam_validateValue_def FloatParam_validateValue_def
        StringParam_validateValue_def ColorParam_validateValue_def
      split: sum.splits error.splits pyval.splits)

text \<open>
  A child that is neither a list nor a group matches a value as soon as it validates it.
\<close>

lemma validated_scalar_matches:
  assumes "\<not> isListAttribute d" and "\<And>ds n. d \<noteq> GroupAttribute ds n"
    and "validateValue lib d v = Inr x"
  shows "matchDescription lib d v strict = Inr True"
proof (cases d)
  case (GroupAttribute ds n)
  then show ?thesis using assms(2) by blast
qed (use assms(1,3) in \<open>simp_all add: Attribute_matchDescription_def\<close>)

text \<open>
  \<open>matchDescription\<close> of a list or of a group lets the \<open>SyntaxError\<close> of
  \<^verbatim>\<open>ast.literal_eval\<close> through.
\<close>

lemma match_literal_eval_raises:
  assumes "literal_eval lib s = Inl SyntaxError"
  shows "matchDescription lib (ListAttribute e n) (VStr s) strict = Inl SyntaxError"
    and "matchDescription lib (GroupAttribute ds n) (VStr s) strict = Inl SyntaxError"
  using assms
  by (simp_all add: Attribute_matchDescription_def ListAttribute_validateValue_def
        GroupAttribute_validateValue_def)

text \<open>
  C4. \<open>matchDescription\<close> of a group raises \<open>AttributeError\<close> on a positional value: a
  list of as many values as the group has children is accepted by \<open>validateValue\<close>, and
  \<open>matchDescription\<close> then calls \<^verbatim>\<open>value.items()\<close> on it.
\<close>

theorem group_match_positional_raises:
  "matchDescription lib
     (GroupAttribute [IntParam ''a'' (VInt 0) [], IntParam ''b'' (VInt 0) []] ''g'')
     (VList [VInt 1, VInt 2]) strict = Inl AttributeError
   \<and> validateValue lib
     (GroupAttribute [IntParam ''a'' (VInt 0) [], IntParam ''b'' (VInt 0) []] ''g'')
     (VList [VInt 1, VInt 2]) = Inr (VList [VInt 1, VInt 2])"
  by (simp add: Attribute_matchDescription_def GroupAttribute_validateValue_def)

text \<open>
  C5, as stated, fails on a list: \<open>checkValueTypes\<close> of a list returns the result of its
  element descriptor, here the element's name, which is neither the list's own name nor
  the empty string.
\<close>

theorem list_reports_element:
  "checkValueTypes (ListAttribute (IntParam ''elem'' (VStr ''x'') []) ''lst'') = Inr ''elem''
   \<and> checkValueTypes (ListAttribute (IntParam ''elem'' (VStr ''x'') []) ''lst'')
       \<noteq> Inr (name (ListAttribute (IntParam ''elem'' (VStr ''x'') []) ''lst''))
   \<and> checkValueTypes (ListAttribute (IntParam ''elem'' (VStr ''x'') []) ''lst'') \<noteq> Inr []"
  by simp

lemma join_prefix:
  "ps \<noteq> [] \<Longrightarrow>
   n @ '':'' @ join ('', '' @ n @ '':'') ps = join '', '' (map (\<lambda>p. n @ '':'' @ p) ps)"
proof (induction ps)
  case Nil
  then show ?case by simp
next
  case (Cons a ps)
  then show ?case by (cases ps) simp_all
qed

lemma invalidPaths_nonempty: "regular d \<Longrightarrow> p \<in> set (spec_invalidPaths d) \<Longrightarrow> p \<noteq> []"
  by (induction d arbitrary: p) (auto split: if_splits)

lemma invalidParams_children:
  assumes "\<And>c. c \<in> set ds \<Longrightarrow> regular c \<Longrightarrow> checkValueTypes c = Inr (join '', '' (spec_invalidPaths c))"
    and "list_all (\<lambda>c. regular c \<and> length (spec_invalidPaths c) \<le> 1) ds"
  shows "invalidParams (map checkValueTypes ds) = Inr (concat (map spec_invalidPaths ds))"
  using assms
proof (induction ds)
  case Nil
  then show ?case by simp
next
  case (Cons c cs)
  have reg: "regular c" and len: "length (spec_invalidPaths c) \<le> 1"
    using Cons.prems(2) by simp_all
  have c: "checkValueTypes c = Inr (join '', '' (spec_invalidPaths c))"
    using Cons.prems(1) reg by simp
  have rest: "invalidParams (map checkValueTypes cs) = Inr (concat (map spec_invalidPaths cs))"
    using Cons by simp
  show ?case
  proof (cases "spec_invalidPaths c")
    case Nil
    then show ?thesis using c rest by simp
  next
    case (Cons p ps)
    then have ps: "ps = []" using len by simp
    have "p \<noteq> []" using invalidPaths_nonempty [OF reg, of p] Cons by simp
    then show ?thesis using c rest Cons ps by simp
  qed
qed

text \<open>
  C5, amended. On a descriptor with no \<open>ColorParam\<close>, no empty parameter name and no
  child of a group with more than one invalid descendant, \<open>checkValueTypes\<close> does not
  raise and returns the paths of the invalid descendants joined by \<open>", "\<close>: the own name
  of a \<open>File\<close>, \<open>BoolParam\<close>, \<open>IntParam\<close>, \<open>FloatParam\<close> or \<open>StringParam\<close> whose default or
  range is not of its kind, nothing for a \<open>ChoiceParam\<close>, the result of the element
  descriptor for a list, and \<open>group:path\<close> for each invalid descendant of a group; the
  empty string when everything is valid.
\<close>

theorem checkValueTypes_paths:
  "regular d \<Longrightarrow> checkValueTypes d = Inr (join '', '' (spec_invalidPaths d))"
proof (induction d)
  case (GroupAttribute ds n)
  let ?ps = "concat (map spec_invalidPaths ds)"
  have ps: "invalidParams (map checkValueTypes ds) = Inr ?ps"
    using GroupAttribute by (intro invalidParams_children) simp_all
  show ?case
  proof (cases "?ps = []")
    case True
    have cv: "checkValueTypes (GroupAttribute ds n) = Inr []"
      by (simp only: checkValueTypes.simps ps True sum.case if_False simp_thms)
    have ip: "spec_invalidPaths (GroupAttribute ds n) = []"
      by (simp only: spec_invalidPaths.simps True list.map)
    show ?thesis by (simp only: cv ip join.simps)
  next
    case False
    have "checkValueTypes (GroupAttribute ds n) = Inr (n @ '':'' @ join ('', '' @ n @ '':'') ?ps)"
      using False by (simp only: checkValueTypes.simps ps sum.case if_True simp_thms)
    also have "n @ '':'' @ join ('', '' @ n @ '':'') ?ps = join '', '' (map (\<lambda>p. n @ '':'' @ p) ?ps)"
      using False by (rule join_prefix)
    finally show ?thesis by (simp only: spec_invalidPaths.simps)
  qed
qed auto

theorem checkValueTypes_paths_witness:
  "regular (GroupAttribute [IntParam ''x'' (VStr ''bad'') [],
       GroupAttribute [BoolParam ''ok'' (VBool True), FloatParam ''y'' (VInt 1) []] ''nested'',
       ListAttribute (StringParam ''elem'' (VInt 3)) ''lst''] ''group'')
   \<and> checkValueTypes (GroupAttribute [IntParam ''x'' (VStr ''bad'') [],
       GroupAttribute [BoolParam ''ok'' (VBool True), FloatParam ''y'' (VInt 1) []] ''nested'',
       ListAttribute (StringParam ''elem'' (VInt 3)) ''lst''] ''group'')
     = Inr ''group:x, group:nested:y, group:elem''"
  using checkValueTypes_paths [of "GroupAttribute [IntParam ''x'' (VStr ''bad'') [],
       GroupAttribute [BoolParam ''ok'' (VBool True), FloatParam ''y'' (VInt 1) []] ''nested'',
       ListAttribute (StringParam ''elem'' (VInt 3)) ''lst''] ''group''"]
  by simp

text \<open>
  C8, as stated, fails on an input that is neither a boolean nor a string: the integer 5
  is accepted, as \<open>True\<close>.
\<close>

theorem bool_accepts_int:
  "\<not> isBool (VInt 5) \<and> \<not> isStr (VInt 5) \<and> BoolParam_validateValue (VInt 5) = Inr (VBool True)"
  by (simp add: BoolParam_validateValue_def)

text \<open>
  C8, amended. \<open>BoolParam.validateValue\<close> returns a boolean unchanged; a string whose
  lower-cased form is one of \<open>y, yes, t, true, on, 1\<close> gives \<open>True\<close>, one of
  \<open>n, no, f, false, off, 0\<close> gives \<open>False\<close>, and any other string fails with
  \<open>ValueError\<close>; a value that is not a string never fails and gives its truth value.
  So \<open>"yes"\<close> gives \<open>True\<close> and \<open>"maybe"\<close> fails.
\<close>

theorem BoolParam_validateValue_cases:
  "BoolParam_validateValue (VBool b) = Inr (VBool b)
   \<and> BoolParam_validateValue (VStr s) =
       (if lower s \<in> {''y'', ''yes'', ''t'', ''true'', ''on'', ''1''} then Inr (VBool True)
        else if lower s \<in> {''n'', ''no'', ''f'', ''false'', ''off'', ''0''} then Inr (VBool False)
        else Inl ValueError)
   \<and> (\<not> isStr v \<longrightarrow> BoolParam_validateValue v = Inr (VBool (py_bool v)))
   \<and> BoolParam_validateValue (VStr ''yes'') = Inr (VBool True)
   \<and> BoolParam_validateValue (VStr ''maybe'') = Inl ValueError"
  by (cases v) (simp_all add: BoolParam_validateValue_def strtobool_def Let_def lower_def lower_char_def)

theorem BoolParam_validateValue_cases_witness:
  "\<not> isStr VNone \<and> BoolParam_validateValue VNone = Inr (VBool False)
   \<and> BoolParam_validateValue (VStr ''OFF'') = Inr (VBool False)"
  using BoolParam_validateValue_cases [of True "''OFF''" VNone]
  by (simp add: lower_def lower_char_def)



section \<open>Properties of the command execution\<close>

text \<open>
  \<open>stopProcess\<close> does nothing for a chunk without a process handle; it signals the
  descendants and then the process itself when every one of them still exists; and it
  does not raise when \<open>NoSuchProcess\<close> is the only exception that \<open>terminate\<close> meets.
\<close>

lemma terminateAll_signalled:
  "(\<And>q. q \<in> set qs \<Longrightarrow> terminate os q = None) \<Longrightarrow> terminateAll os qs = (None, qs)"
  by (induction qs) simp_all

lemma terminateAll_error:
  "terminateAll os qs = (Some e, sg) \<Longrightarrow> \<exists>q \<in> set qs. terminate os q = Some e"
  by (induction qs arbitrary: sg) (auto split: option.splits prod.splits)

lemma stopProcess_no_handle:
  "subprocess c = None \<or> subprocess c = Some None \<Longrightarrow> stopProcess os c = (Inr (), [])"
  by (auto simp add: stopProcess_def)

lemma stopProcess_all_alive:
  assumes "subprocess c = Some (Some p)" and "children os p = Inr cs"
    and "\<And>q. q \<in> set (cs @ [p]) \<Longrightarrow> terminate os q = None"
  shows "stopProcess os c = (Inr (), cs @ [p])"
  using assms(1,2) terminateAll_signalled [of "cs @ [p]" os, OF assms(3)]
  by (simp add: stopProcess_def)

lemma stopProcess_tolerates_gone:
  assumes "subprocess c = Some (Some p)" and "children os p = Inr cs"
    and "\<And>q. q \<in> set (cs @ [p]) \<Longrightarrow> terminate os q = None \<or> terminate os q = Some NoSuchProcess"
  shows "fst (stopProcess os c) = Inr ()"
proof (cases "terminateAll os (cs @ [p])")
  case (Pair r sg)
  show ?thesis
  proof (cases r)
    case None
    then show ?thesis using assms(1,2) Pair by (simp add: stopProcess_def)
  next
    case (Some e)
    then obtain q where "q \<in> set (cs @ [p])" and "terminate os q = Some e"
      using terminateAll_error Pair by blast
    then have "e = NoSuchProcess" using assms(3) by fastforce
    then show ?thesis using assms(1,2) Pair Some by (simp add: stopProcess_def)
  qed
qed

text \<open>
  C7. \<open>stopProcess\<close> does not terminate every process that still exists. The process 1
  of the chunk has the descendants 2 and 3; process 2 has gone when it is terminated.
  The call returns without an exception, and neither 3 nor 1, which still exist, has been
  terminated: the first \<open>NoSuchProcess\<close> ends the loop.
\<close>

theorem stopProcess_stops_at_first_gone:
  "stopProcess
     \<lparr>children = (\<lambda>p. Inr [2, 3]),
      terminate = (\<lambda>q. if q = 2 then Some NoSuchProcess else None)\<rparr>
     \<lparr>chunkName = ''n'', logFile = ''log'', statusCommandLine = None, statusReturnCode = None,
      subprocess = Some (Some 1), statThreadProc = Some 1\<rparr>
   = (Inr (), [])"
  by (simp add: stopProcess_def)

text \<open>
  Whatever happens, \<open>processChunk\<close> leaves the chunk's \<open>subprocess\<close> at \<open>None\<close>, and what
  it does outside the chunk is a prefix of: saving the status with the command line,
  printing two lines, launching the process with that command line.
\<close>

lemma take_prefixes:
  "[] = take 0 [a, b, c, d]" "[a] = take 1 [a, b, c, d]" "[a, b] = take 2 [a, b, c, d]"
  "[a, b, c] = take 3 [a, b, c, d]" "[a, b, c, d] = take 4 [a, b, c, d]"
  by (simp_all add: numeral_2_eq_2 numeral_3_eq_3 eval_nat_numeral)

lemma processChunk_run_events:
  "\<exists>c r q n. events (snd (processChunk_run rt st)) = events st @
      take n [SavedStatus (Some c) r, Printed (commandLineLine c),
              Printed (logFileLine (logFile (chunkOf st))), Launched c q]"
  unfolding processChunk_run_def Let_def
  by (auto split: sum.splits option.splits prod.splits)
     ((rule exI, rule exI, rule exI, rule exI, rule take_prefixes)+)

lemma processChunk_try_events:
  "events (snd (processChunk_try rt st)) = events (snd (processChunk_run rt st))"
  by (cases "processChunk_run rt st") (simp add: processChunk_try_def split: sum.splits)

lemma processChunk_events:
  "events (snd (processChunk rt st)) = events (snd (processChunk_run rt st))"
  using processChunk_try_events [of rt st]
  by (cases "processChunk_try rt st") (simp add: processChunk_def)

lemma processChunk_clears: "subprocess (chunkOf (snd (processChunk rt st))) = Some None"
  by (simp add: processChunk_def split: prod.splits)

lemma processChunk_run_launched:
  assumes w: "writable rt (logFile (chunkOf st))"
    and b: "buildCommandLine rt (chunkOf st) = Inr cmd"
    and s: "saveStatusFile rt ((chunkOf st)\<lparr>statusCommandLine := Some cmd\<rparr>) = None"
    and p1: "printLine rt (commandLineLine cmd) = None"
    and p2: "printLine rt (logFileLine (logFile (chunkOf st))) = None"
    and p: "popen rt cmd = Inr pid"
    and r: "run rt pid = (out, Inr rc)"
  shows "processChunk_run rt st =
           (Inr rc,
            \<lparr>chunkOf = (chunkOf st)\<lparr>statusCommandLine := Some cmd, statusReturnCode := Some rc,
                 subprocess := Some (Some pid), statThreadProc := Some pid\<rparr>,
             files = (files st)(logFile (chunkOf st) \<mapsto> out),
             events = events st @
               [SavedStatus (Some cmd) (statusReturnCode (chunkOf st)),
                Printed (commandLineLine cmd),
                Printed (logFileLine (logFile (chunkOf st))),
                Launched cmd pid]\<rparr>)"
  using assms by (simp add: processChunk_run_def Let_def)

text \<open>
  C6, as stated, fails when the log cannot be read back as text: the process writes the
  byte \<open>0xFF\<close>, which the decoder refuses, and exits with code 2. \<open>processChunk\<close> records
  the return code and clears the handle, but the exception it raises is the
  \<open>UnicodeDecodeError\<close> of the re-read, not the error that carries the log.
\<close>

theorem processChunk_undecodable_log:
  "processChunk
     \<lparr>writable = (\<lambda>f. True), buildCommandLine = (\<lambda>c. Inr ''prog --in x''),
      saveStatusFile = (\<lambda>c. None), printLine = (\<lambda>l. None), popen = (\<lambda>cmd. Inr 7),
      run = (\<lambda>p. ([CHR 0xFF], Inr 2)), readable = (\<lambda>f. True),
      decode = (\<lambda>bytes. if CHR 0xFF \<in> set bytes then Inl UnicodeDecodeError else Inr bytes)\<rparr>
     \<lparr>chunkOf = \<lparr>chunkName = ''node_1'', logFile = ''log'', statusCommandLine = None,
        statusReturnCode = None, subprocess = None, statThreadProc = None\<rparr>,
      files = Map.empty, events = []\<rparr>
   = (Inl UnicodeDecodeError,
      \<lparr>chunkOf = \<lparr>chunkName = ''node_1'', logFile = ''log'',
         statusCommandLine = Some ''prog --in x'', statusReturnCode = Some 2,
         subprocess = Some None, statThreadProc = Some 7\<rparr>,
       files = Map.empty(''log'' \<mapsto> [CHR 0xFF]),
       events = [SavedStatus (Some ''prog --in x'') None, Printed (commandLineLine ''prog --in x''),
                 Printed (logFileLine ''log''), Launched ''prog --in x'' 7]\<rparr>)"
  by (simp add: processChunk_def processChunk_try_def processChunk_run_def readLog_def Let_def)

text \<open>
  C6, amended. When the log file can be opened, the command line is built, the status is
  saved, the two lines are printed, the process is launched and exits with a code
  \<open>rc \<noteq> 0\<close>: the status holds the return code \<open>rc\<close> and the command line, the status with
  the command line was saved before the launch, and \<open>processChunk\<close> fails. When the log
  can be read back as text, it fails with the \<open>RuntimeError\<close> whose message is
  \<open>Error on node "name":\<close>, \<open>Log:\<close> and the whole text of the log; otherwise it fails with
  the exception of the re-read. On every path, whatever happens, the chunk's \<open>subprocess\<close>
  is \<open>None\<close> in the end, and a launch comes only after the status with that command line
  was saved.
\<close>

theorem processChunk_nonzero_exit:
  assumes w: "writable rt (logFile (chunkOf st))"
    and b: "buildCommandLine rt (chunkOf st) = Inr cmd"
    and s: "saveStatusFile rt ((chunkOf st)\<lparr>statusCommandLine := Some cmd\<rparr>) = None"
    and p1: "printLine rt (commandLineLine cmd) = None"
    and p2: "printLine rt (logFileLine (logFile (chunkOf st))) = None"
    and p: "popen rt cmd = Inr pid"
    and r: "run rt pid = (out, Inr rc)"
    and nz: "rc \<noteq> 0"
  shows "(\<exists>st'. processChunk rt st =
            ((if \<not> readable rt (logFile (chunkOf st)) then Inl OSError
              else case decode rt out of
                Inl e \<Rightarrow> Inl e
              | Inr logContent \<Rightarrow>
                  Inl (RuntimeError (''Error on node '' @ [CHR 0x22] @ chunkName (chunkOf st)
                         @ [CHR 0x22] @ '':'' @ [CHR 0x0A] @ ''Log:'' @ [CHR 0x0A] @ logContent))),
             st')
          \<and> statusReturnCode (chunkOf st') = Some rc
          \<and> statusCommandLine (chunkOf st') = Some cmd
          \<and> subprocess (chunkOf st') = Some None
          \<and> files st' (logFile (chunkOf st)) = Some out
          \<and> events st' = events st @
               [SavedStatus (Some cmd) (statusReturnCode (chunkOf st)),
                Printed (commandLineLine cmd),
                Printed (logFileLine (logFile (chunkOf st))),
                Launched cmd pid])
       \<and> subprocess (chunkOf (snd (processChunk rt' st0))) = Some None
       \<and> (\<exists>c r q n. events (snd (processChunk rt' st0)) = events st0 @
             take n [SavedStatus (Some c) r, Printed (commandLineLine c),
                     Printed (logFileLine (logFile (chunkOf st0))), Launched c q])"
proof -
  note run = processChunk_run_launched [OF w b s p1 p2 p r]
  have 1: "\<exists>st'. processChunk rt st =
            ((if \<not> readable rt (logFile (chunkOf st)) then Inl OSError
              else case decode rt out of
                Inl e \<Rightarrow> Inl e
              | Inr logContent \<Rightarrow>
                  Inl (RuntimeError (''Error on node '' @ [CHR 0x22] @ chunkName (chunkOf st)
                         @ [CHR 0x22] @ '':'' @ [CHR 0x0A] @ ''Log:'' @ [CHR 0x0A] @ logContent))),
             st')
          \<and> statusReturnCode (chunkOf st') = Some rc
          \<and> statusCommandLine (chunkOf st') = Some cmd
          \<and> subprocess (chunkOf st') = Some None
          \<and> files st' (logFile (chunkOf st)) = Some out
          \<and> events st' = events st @
               [SavedStatus (Some cmd) (statusReturnCode (chunkOf st)),
                Printed (commandLineLine cmd),
                Printed (logFileLine (logFile (chunkOf st))),
                Launched cmd pid]"
    using nz
    by (simp add: processChunk_def processChunk_try_def run readLog_def errorMessage_def
          split: sum.splits)
  have 2: "subprocess (chunkOf (snd (processChunk rt' st0))) = Some None"
    by (rule processChunk_clears)
  have 3: "\<exists>c r q n. events (snd (processChunk rt' st0)) = events st0 @
             take n [SavedStatus (Some c) r, Printed (commandLineLine c),
                     Printed (logFileLine (logFile (chunkOf st0))), Launched c q]"
    using processChunk_run_events [of rt' st0] by (simp only: processChunk_events)
  from 1 2 3 show ?thesis by blast
qed

theorem processChunk_nonzero_exit_witness:
  "(2::int) \<noteq> 0
   \<and> (\<exists>st'. processChunk
          \<lparr>writable = (\<lambda>f. True), buildCommandLine = (\<lambda>c. Inr ''prog --in x''),
           saveStatusFile = (\<lambda>c. None), printLine = (\<lambda>l. None), popen = (\<lambda>cmd. Inr 7),
           run = (\<lambda>p. (''fatal: no input'', Inr 2)), readable = (\<lambda>f. True),
           decode = (\<lambda>bytes. Inr bytes)\<rparr>
          \<lparr>chunkOf = \<lparr>chunkName = ''node_1'', logFile = ''log'', statusCommandLine = None,
             statusReturnCode = None, subprocess = None, statThreadProc = None\<rparr>,
           files = Map.empty, events = []\<rparr> =
            (Inl (RuntimeError (''Error on node '' @ [CHR 0x22] @ ''node_1'' @ [CHR 0x22] @ '':''
                    @ [CHR 0x0A] @ ''Log:'' @ [CHR 0x0A] @ ''fatal: no input'')), st')
        \<and> statusReturnCode (chunkOf st') = Some 2
        \<and> statusCommandLine (chunkOf st') = Some ''prog --in x''
        \<and> subprocess (chunkOf st') = Some None
        \<and> files st' ''log'' = Some ''fatal: no input''
        \<and> events st' =
            [SavedStatus (Some ''prog --in x'') None, Printed (commandLineLine ''prog --in x''),
             Printed (logFileLine ''log''), Launched ''prog --in x'' 7])"
  using processChunk_nonzero_exit [of
      "\<lparr>writable = (\<lambda>f. True), buildCommandLine = (\<lambda>c. Inr ''prog --in x''),
        saveStatusFile = (\<lambda>c. None), printLine = (\<lambda>l. None), popen = (\<lambda>cmd. Inr 7),
        run = (\<lambda>p. (''fatal: no input'', Inr 2)), readable = (\<lambda>f. True),
        decode = (\<lambda>bytes. Inr bytes)\<rparr>"
      "\<lparr>chunkOf = \<lparr>chunkName = ''node_1'', logFile = ''log'', statusCommandLine = None,
         statusReturnCode = None, subprocess = None, statThreadProc = None\<rparr>,
        files = Map.empty, events = []\<rparr>"
      "''prog --in x''" 7 "''fatal: no input''" 2]
  by simp

end
